theory Spec2Isabelle
  imports Main
begin

section \<open>Python values used by steamsync.py\<close>

text \<open>
  The exceptions that the modelled code can raise.  An uncaught exception ends the
  process with a traceback and exit status 1.
\<close>

datatype py_error =
    ValueError | TypeError | KeyError | IndexError | AttributeError
  | StopIteration | EOFError | FileNotFoundError | FileExistsError | PermissionError
  | CodecError

text \<open>
  What \<^verbatim>\<open>vdf.binary_load\<close> hands back: strings, integers and nested dictionaries.
  A Python \<^verbatim>\<open>dict\<close> keeps insertion order, so a dictionary is an association list;
  a key occurs once in a real dictionary.
\<close>

datatype vdf_value = VStr string | VInt int | VDict "(string \<times> vdf_value) list"

type_synonym py_dict = "(string \<times> vdf_value) list"

text \<open>\<^verbatim>\<open>d[k] = v\<close>: an existing key keeps its position, a new key goes to the end.\<close>

fun dict_set :: "'k \<Rightarrow> 'v \<Rightarrow> ('k \<times> 'v) list \<Rightarrow> ('k \<times> 'v) list" where
  "dict_set k v [] = [(k, v)]"
| "dict_set k v ((k', v') # d) =
     (if k' = k then (k, v) # d else (k', v') # dict_set k v d)"

text \<open>Python truth value of a decoded value, and of the result of \<^verbatim>\<open>dict.get\<close>.\<close>

fun truthy :: "vdf_value \<Rightarrow> bool" where
  "truthy (VStr s) = (s \<noteq> [])"
| "truthy (VInt i) = (i \<noteq> 0)"
| "truthy (VDict d) = (d \<noteq> [])"

definition py_not :: "vdf_value option \<Rightarrow> bool" where
  "py_not x = (case x of None \<Rightarrow> True | Some v \<Rightarrow> \<not> truthy v)"

subsection \<open>Strings: \<^verbatim>\<open>strip\<close>, \<^verbatim>\<open>split\<close>, \<^verbatim>\<open>isdigit\<close>, \<^verbatim>\<open>int\<close>, \<^verbatim>\<open>str\<close>\<close>

text \<open>The ASCII characters for which \<^verbatim>\<open>str.isspace\<close> holds.\<close>

definition is_space :: "char \<Rightarrow> bool" where
  "is_space c = (c \<in> set [CHR 0x09, CHR 0x0A, CHR 0x0B, CHR 0x0C, CHR 0x0D,
                            CHR 0x1C, CHR 0x1D, CHR 0x1E, CHR 0x1F, CHR 0x20])"

definition strip :: "string \<Rightarrow> string" where
  "strip s = rev (dropWhile is_space (rev (dropWhile is_space s)))"

fun split_on :: "char \<Rightarrow> string \<Rightarrow> string list" where
  "split_on c [] = [[]]"
| "split_on c (x # xs) =
     (if x = c then [] # split_on c xs
      else (case split_on c xs of [] \<Rightarrow> [[x]] | y # ys \<Rightarrow> (x # y) # ys))"

definition is_digit :: "char \<Rightarrow> bool" where
  "is_digit c = (c \<in> set ''0123456789'')"

definition digit_val :: "char \<Rightarrow> nat" where
  "digit_val c = of_char c - 48"

definition isdigit :: "string \<Rightarrow> bool" where
  "isdigit s = (s \<noteq> [] \<and> list_all is_digit s)"

text \<open>
  The digits of \<^verbatim>\<open>int(s)\<close>: decimal digits, where one underscore may stand between
  two digits.  The flag says that the previous character was a digit.
\<close>

fun py_digits :: "nat \<Rightarrow> bool \<Rightarrow> string \<Rightarrow> nat option" where
  "py_digits acc ok [] = (if ok then Some acc else None)"
| "py_digits acc ok (c # cs) =
     (if is_digit c then py_digits (10 * acc + digit_val c) True cs
      else if c = CHR ''_'' \<and> ok then py_digits acc False cs
      else None)"

text \<open>
  \<^verbatim>\<open>int(s)\<close> in base 10: surrounding whitespace is dropped, one sign is allowed.
  \<open>None\<close> is \<^verbatim>\<open>ValueError\<close>.
\<close>

definition py_int :: "string \<Rightarrow> int option" where
  "py_int s =
     (case strip s of
        [] \<Rightarrow> None
      | c # cs \<Rightarrow>
          if c = CHR ''-'' then map_option (\<lambda>n. - int n) (py_digits 0 False cs)
          else if c = CHR ''+'' then map_option int (py_digits 0 False cs)
          else map_option int (py_digits 0 False (c # cs)))"

text \<open>\<^verbatim>\<open>str(n)\<close> of an integer: its decimal digits, with a minus sign below zero.\<close>

definition digit_char :: "nat \<Rightarrow> char" where
  "digit_char d = ''0123456789'' ! d"

fun str_nat :: "nat \<Rightarrow> string" where
  "str_nat n =
     (if n < 10 then [digit_char n] else str_nat (n div 10) @ [digit_char (n mod 10)])"

definition py_str :: "int \<Rightarrow> string" where
  "py_str i = (if i < 0 then CHR ''-'' # str_nat (nat (- i)) else str_nat (nat i))"

section \<open>Records of the program\<close>

text \<open>
  \<^verbatim>\<open>defs.GameDefinition\<close> and the account objects of \<^verbatim>\<open>steameditor\<close> are declared
  outside steamsync.py; the records carry the attributes that steamsync.py reads.
  \<^verbatim>\<open>uri\<close> is \<^verbatim>\<open>None\<close> or a string.
\<close>

record GameDefinition =
  executable_path :: string
  display_name :: string
  app_name :: string
  install_folder :: string
  launch_arguments :: string
  uri :: "string option"
  storetag :: string
  icon :: string

record SteamAccount =
  steamid :: string
  username :: string

text \<open>
  The expression \<^verbatim>\<open>game.uri if use_uri and game.uri else game.executable_path\<close>
  (line 426, and lines 299 to 302 of \<^verbatim>\<open>to_shortcut\<close>).
\<close>

definition shortcut_target :: "GameDefinition \<Rightarrow> bool \<Rightarrow> string" where
  "shortcut_target game use_uri =
     (case uri game of
        None \<Rightarrow> executable_path game
      | Some u \<Rightarrow> if use_uri \<and> u \<noteq> [] then u else executable_path game)"

definition to_shortcut :: "GameDefinition \<Rightarrow> bool \<Rightarrow> py_dict" where
  "to_shortcut game use_uri =
     [(''appname'', VStr (display_name game)),
      (''Exe'', VStr (shortcut_target game use_uri)),
      (''StartDir'', VStr (install_folder game)),
      (''icon'', VStr (icon game)),
      (''ShortcutPath'', VStr []),
      (''LaunchOptions'', VStr (launch_arguments game)),
      (''IsHidden'', VInt 0),
      (''AllowDesktopConfig'', VInt 1),
      (''AllowOverlay'', VInt 1),
      (''openvr'', VInt 0),
      (''Devkit'', VInt 0),
      (''DevkitGameID'', VStr []),
      (''LastPlayTime'', VInt 0),
      (''tags'', VDict [(''0'', VStr ''steamsync''), (''1'', VStr (storetag game))])]"

section \<open>The world: files, console, clock, art cache\<close>

text \<open>
  \<open>files\<close> maps a path to the bytes of the file there; \<open>denied\<close> says for which
  paths the operating system refuses removal, renaming and writing; \<open>clock\<close> is what
  \<^verbatim>\<open>time.strftime("%Y%m%d-%H%M%S")\<close> returns; \<open>stdin\<close> holds the lines still to be
  read by \<^verbatim>\<open>input\<close>; \<open>stdout\<close> what was printed; \<open>art_cache\<close> the state
  behind \<^verbatim>\<open>steamdb.download_art\<close>.  \<open>Line\<close> is a \<^verbatim>\<open>print\<close> of a string, \<open>Repr\<close> a
  \<^verbatim>\<open>print\<close> of a decoded value, \<open>Prompt\<close> the prompt of \<^verbatim>\<open>input\<close>, \<open>LineExc\<close> a
  \<^verbatim>\<open>print\<close> of a string and an exception.
\<close>

datatype printed = Line string | Repr vdf_value | Prompt string | LineExc string py_error

record ('b, 'c) world =
  files :: "string \<rightharpoonup> 'b"
  denied :: "string \<Rightarrow> bool"
  clock :: string
  stdin :: "string list"
  stdout :: "printed list"
  art_cache :: 'c

definition print_line :: "string \<Rightarrow> ('b, 'c) world \<Rightarrow> ('b, 'c) world" where
  "print_line s w = w\<lparr>stdout := stdout w @ [Line s]\<rparr>"

definition print_value :: "vdf_value \<Rightarrow> ('b, 'c) world \<Rightarrow> ('b, 'c) world" where
  "print_value v w = w\<lparr>stdout := stdout w @ [Repr v]\<rparr>"

definition os_path_exists :: "('b, 'c) world \<Rightarrow> string \<Rightarrow> bool" where
  "os_path_exists w p = (files w p \<noteq> None)"

definition os_remove ::
  "string \<Rightarrow> ('b, 'c) world \<Rightarrow> py_error \<times> ('b, 'c) world + unit \<times> ('b, 'c) world" where
  "os_remove p w =
     (if files w p = None then Inl (FileNotFoundError, w)
      else if denied w p then Inl (PermissionError, w)
      else Inr ((), w\<lparr>files := (files w)(p := None)\<rparr>))"

text \<open>\<^verbatim>\<open>os.rename\<close> as on Windows, where the tool runs: an existing target is an error.\<close>

definition os_rename ::
  "string \<Rightarrow> string \<Rightarrow> ('b, 'c) world \<Rightarrow> py_error \<times> ('b, 'c) world + unit \<times> ('b, 'c) world" where
  "os_rename src dst w =
     (case files w src of
        None \<Rightarrow> Inl (FileNotFoundError, w)
      | Some content \<Rightarrow>
          if denied w src \<or> denied w dst then Inl (PermissionError, w)
          else if files w dst \<noteq> None then Inl (FileExistsError, w)
          else Inr ((), w\<lparr>files := (files w)(src := None, dst \<mapsto> content)\<rparr>))"

text \<open>\<^verbatim>\<open>with open(p, "wb") as f: f.write(bytes)\<close>.\<close>

definition write_wb ::
  "string \<Rightarrow> 'b \<Rightarrow> ('b, 'c) world \<Rightarrow> py_error \<times> ('b, 'c) world + unit \<times> ('b, 'c) world" where
  "write_wb p content w =
     (if denied w p then Inl (PermissionError, w)
      else Inr ((), w\<lparr>files := (files w)(p \<mapsto> content)\<rparr>))"

text \<open>
  What steamsync.py uses of the \<^verbatim>\<open>SteamDatabase\<close> object: \<^verbatim>\<open>_steam_path\<close>,
  \<^verbatim>\<open>download_art(user, game, should_replace_existing=False)\<close> for the temporary
  definition built at lines 397 to 405 (only the executable, its parent folder and the
  \<^verbatim>\<open>appname\<close> entry vary), \<^verbatim>\<open>download_art_multiple\<close>, the outcome of building the
  object and calling \<^verbatim>\<open>enumerate_steam_accounts\<close> (lines 496 to 499), and the grid
  folder of a user.

  Modelled from the spec: the class is in steameditor.py, which is not among the
  sources; art download is an operation on the art cache alone that returns whether
  something new was downloaded and never aborts the run.
\<close>

record 'c SteamDatabase =
  steam_path :: string
  download_art :: "'c \<Rightarrow> SteamAccount \<Rightarrow> string \<Rightarrow> string \<Rightarrow> vdf_value option \<Rightarrow> bool \<times> 'c"
  download_art_multiple :: "'c \<Rightarrow> SteamAccount \<Rightarrow> GameDefinition list \<Rightarrow> nat \<times> 'c"
  enumerate_steam_accounts :: "py_error + SteamAccount list"
  get_grid_folder :: "SteamAccount \<Rightarrow> string \<Rightarrow> string"

text \<open>
  Library functions taken as parameters: \<^verbatim>\<open>os.path.join\<close>, \<^verbatim>\<open>str(Path(p).parent)\<close>,
  \<^verbatim>\<open>vdf.binary_load\<close> and \<^verbatim>\<open>vdf.binary_dumps\<close>.
\<close>

record 'b library =
  os_path_join :: "string list \<Rightarrow> string"
  path_parent :: "string \<Rightarrow> string"
  binary_load :: "'b \<Rightarrow> py_error + py_dict"
  binary_dumps :: "py_dict \<Rightarrow> py_error + 'b"

section \<open>\<^verbatim>\<open>add_games_to_shortcut_file\<close>\<close>

definition warn_sign :: string where
  "warn_sign = [CHR 0xE2, CHR 0x9A, CHR 0xA0]"

definition arrow_sign :: string where
  "arrow_sign = [CHR 0xE2, CHR 0x9E, CHR 0xA1]"

definition plus_sign :: string where
  "plus_sign = [CHR 0xE2, CHR 0x9E, CHR 0x95]"

definition notice_banner :: string where
  "notice_banner = warn_sign @ '' '' @ warn_sign @ '' NOTICE: '' @ warn_sign @ '' '' @ warn_sign"

definition no_exe_warning :: string where
  "no_exe_warning =
     ''Warning: Entry in shortcuts.vdf has no `Exe` field! Is this a malformed entry?''"

text \<open>
  Lines 383 to 408: the loop over \<^verbatim>\<open>shortcuts["shortcuts"].items()\<close> that fills
  \<^verbatim>\<open>path_to_index\<close> and, with \<^verbatim>\<open>download_art_unsupported\<close>, asks for art of the
  entries that are not among the selected games.  \<^verbatim>\<open>v.get\<close> on a value that is no
  dictionary raises \<^verbatim>\<open>AttributeError\<close>; a dictionary as key of \<^verbatim>\<open>path_to_index\<close> and
  \<^verbatim>\<open>Path\<close> of an integer raise \<^verbatim>\<open>TypeError\<close>.  \<open>entry_exe\<close> is lines 384 to 386:
  \<^verbatim>\<open>exe = v.get("Exe")\<close>, and \<^verbatim>\<open>v.get("exe")\<close> when that is missing or false.
\<close>

definition entry_exe :: "py_dict \<Rightarrow> vdf_value option" where
  "entry_exe v = (let exe = map_of v ''Exe'' in if py_not exe then map_of v ''exe'' else exe)"

fun index_shortcuts ::
  "'c SteamDatabase \<Rightarrow> 'b library \<Rightarrow> SteamAccount \<Rightarrow> bool \<Rightarrow> GameDefinition list \<Rightarrow>
   (string \<times> vdf_value) list \<Rightarrow> (vdf_value \<rightharpoonup> string) \<Rightarrow> nat \<Rightarrow> ('b, 'c) world \<Rightarrow>
   py_error \<times> ('b, 'c) world + ((vdf_value \<rightharpoonup> string) \<times> nat) \<times> ('b, 'c) world" where
  "index_shortcuts steamdb lib user download_art_unsupported games [] path_to_index art_downloads w =
     Inr ((path_to_index, art_downloads), w)"
| "index_shortcuts steamdb lib user download_art_unsupported games ((k, v) # items)
       path_to_index art_downloads w =
     (case v of
        VDict d \<Rightarrow>
          (case entry_exe d of
             None \<Rightarrow>
               index_shortcuts steamdb lib user download_art_unsupported games items
                 path_to_index art_downloads (print_value v (print_line no_exe_warning w))
           | Some e \<Rightarrow>
                  if \<not> truthy e then
                    index_shortcuts steamdb lib user download_art_unsupported games items
                      path_to_index art_downloads (print_value v (print_line no_exe_warning w))
                  else
                    (case e of
                       VDict _ \<Rightarrow> Inl (TypeError, w)
                     | VInt _ \<Rightarrow>
                         if download_art_unsupported then Inl (TypeError, w)
                         else index_shortcuts steamdb lib user download_art_unsupported games items
                                (path_to_index(e \<mapsto> k)) art_downloads w
                     | VStr p \<Rightarrow>
                         if download_art_unsupported \<and> p \<notin> set (map executable_path games) then
                           (case download_art steamdb (art_cache w) user p (path_parent lib p)
                                   (map_of d ''appname'') of
                              (success, c) \<Rightarrow>
                                index_shortcuts steamdb lib user download_art_unsupported games items
                                  (path_to_index(e \<mapsto> k))
                                  (if success then art_downloads + 1 else art_downloads)
                                  (w\<lparr>art_cache := c\<rparr>))
                         else index_shortcuts steamdb lib user download_art_unsupported games items
                                (path_to_index(e \<mapsto> k)) art_downloads w))
      | _ \<Rightarrow> Inl (AttributeError, w))"

text \<open>
  Lines 418 to 422: \<^verbatim>\<open>last_index\<close> is 0 for an empty dictionary and otherwise the
  greatest \<^verbatim>\<open>int(idx)\<close> over the keys; a key that \<^verbatim>\<open>int\<close> rejects raises
  \<^verbatim>\<open>ValueError\<close>.
\<close>

fun int_keys :: "(string \<times> 'v) list \<Rightarrow> int list option" where
  "int_keys [] = Some []"
| "int_keys ((k, v) # items) =
     (case py_int k of
        None \<Rightarrow> None
      | Some n \<Rightarrow> map_option ((#) n) (int_keys items))"

definition compute_last_index :: "(string \<times> 'v) list \<Rightarrow> py_error + int" where
  "compute_last_index all_indexes =
     (if length all_indexes = 0 then Inr 0
      else (case int_keys all_indexes of
              None \<Rightarrow> Inl ValueError
            | Some [] \<Rightarrow> Inr 0
            | Some (n # ns) \<Rightarrow> Inr (fold max ns n)))"

text \<open>
  Lines 424 to 439: the loop over the selected games.  \<open>shortcuts_dict\<close> is
  \<^verbatim>\<open>shortcuts["shortcuts"]\<close>, which the loop changes in place.
\<close>

record merge_state =
  shortcuts_dict :: py_dict
  last_index :: int
  added :: nat
  game_results :: "string list"

definition skip_message :: "GameDefinition \<Rightarrow> string" where
  "skip_message game = display_name game @ '': Not creating shortcut since it already has one''"

fun merge_games ::
  "bool \<Rightarrow> bool \<Rightarrow> (vdf_value \<rightharpoonup> string) \<Rightarrow> GameDefinition list \<Rightarrow> merge_state \<Rightarrow>
   ('b, 'c) world \<Rightarrow> merge_state \<times> ('b, 'c) world" where
  "merge_games use_uri replace_existing path_to_index [] st w = (st, w)"
| "merge_games use_uri replace_existing path_to_index (game # games) st w =
     (let shortcut = shortcut_target game use_uri
      in case path_to_index (VStr shortcut) of
           None \<Rightarrow>
             merge_games use_uri replace_existing path_to_index games
               (st\<lparr>last_index := last_index st + 1,
                   shortcuts_dict :=
                     dict_set (py_str (last_index st + 1)) (VDict (to_shortcut game use_uri))
                       (shortcuts_dict st),
                   added := added st + 1\<rparr>) w
         | Some i \<Rightarrow>
             if i \<noteq> [] then
               (if replace_existing then
                  merge_games use_uri replace_existing path_to_index games
                    (st\<lparr>shortcuts_dict :=
                          dict_set i (VDict (to_shortcut game use_uri)) (shortcuts_dict st),
                        added := added st + 1\<rparr>) w
                else
                  merge_games use_uri replace_existing path_to_index games
                    (st\<lparr>game_results := game_results st @ [skip_message game]\<rparr>)
                    (print_line (skip_message game) w))
             else
               merge_games use_uri replace_existing path_to_index games
                 (st\<lparr>last_index := last_index st + 1,
                     shortcuts_dict :=
                       dict_set (py_str (last_index st + 1)) (VDict (to_shortcut game use_uri))
                         (shortcuts_dict st),
                     added := added st + 1\<rparr>) w)"

text \<open>Lines 346 to 357: the notice printed first.\<close>

definition print_notice :: "bool \<Rightarrow> ('b, 'c) world \<Rightarrow> ('b, 'c) world" where
  "print_notice use_uri w =
     (if use_uri then
        print_line [] (print_line ''You may experience issues with game streaming''
          (print_line ''Using a URI instead of executable path''
            (print_line notice_banner (print_line [] w))))
      else
        print_line [] (print_line ''You may experience issues with online games (eg GTAV!)''
          (print_line ''Using the path to the executable instead of the Epic Games Launcher URI''
            (print_line notice_banner (print_line [] w)))))"

definition not_found_message :: "string \<Rightarrow> string" where
  "not_found_message shortcut_file_path =
     ''Could not find shortcuts file at `'' @ shortcut_file_path @ ''` '' @ [CHR 0x0A] @
     '' Make a shortcut in Steam (Library '' @ arrow_sign @ '' '' @ plus_sign @
     '' Add Game '' @ arrow_sign @ '' Add a Non-Steam Game...) first. Aborting.''"

definition nothing_new_message :: string where
  "nothing_new_message = ''No need to update `shortcuts.vdf` - nothing new to add''"

definition shortcut_file_path_of :: "'c SteamDatabase \<Rightarrow> 'b library \<Rightarrow> SteamAccount \<Rightarrow> string" where
  "shortcut_file_path_of steamdb lib user =
     os_path_join lib [steam_path steamdb, ''userdata'', steamid user, ''config'', ''shortcuts.vdf'']"

text \<open>
  Lines 447 to 464: backup or removal of the old file, then the write of the new one.
\<close>

definition commit_shortcuts ::
  "'b library \<Rightarrow> string \<Rightarrow> bool \<Rightarrow> py_dict \<Rightarrow> ('b, 'c) world \<Rightarrow>
   py_error \<times> ('b, 'c) world + unit \<times> ('b, 'c) world" where
  "commit_shortcuts lib shortcut_file_path skip_backup shortcuts w =
     (case (if skip_backup then
              os_remove shortcut_file_path
                (print_line ''Not backing up `shortcuts.vdf` since you enjoy danger'' w)
            else
              (let timestamp = clock w;
                   new_filename = shortcut_file_path @ ''-'' @ timestamp @ ''.bak''
               in os_rename shortcut_file_path new_filename
                    (print_line (''Backing up `shortcuts.vdf` to `'' @ new_filename @ ''`'') w))) of
        Inl ew \<Rightarrow> Inl ew
      | Inr (u, w1) \<Rightarrow>
          (case binary_dumps lib shortcuts of
             Inl e \<Rightarrow> Inl (e, w1)
           | Inr new_bytes \<Rightarrow>
               (case write_wb shortcut_file_path new_bytes w1 of
                  Inl ew \<Rightarrow> Inl ew
                | Inr (u, w2) \<Rightarrow>
                    Inr ((), print_line (arrow_sign @ ''   Restart Steam!'')
                               (print_line []
                                 (print_line ''Updated `shortcuts.vdf` successfully!'' w2))))))"

text \<open>
  Lines 368 to 441, from reading the file to the line \<^verbatim>\<open>Added n new games\<close>: the
  part of \<^verbatim>\<open>add_games_to_shortcut_file\<close> that works on the decoded store in memory.
  It returns the dictionary \<^verbatim>\<open>shortcuts\<close> as the loops have left it, and the loop
  variables.
\<close>

definition load_and_merge ::
  "'c SteamDatabase \<Rightarrow> 'b library \<Rightarrow> SteamAccount \<Rightarrow> GameDefinition list \<Rightarrow> bool \<Rightarrow> bool \<Rightarrow>
   bool \<Rightarrow> string \<Rightarrow> ('b, 'c) world \<Rightarrow>
   py_error \<times> ('b, 'c) world + (py_dict \<times> merge_state) \<times> ('b, 'c) world" where
  "load_and_merge steamdb lib user games use_uri replace_existing download_art_unsupported
       shortcut_file_path w1 =
     (case files w1 shortcut_file_path of
        None \<Rightarrow> Inl (FileNotFoundError, w1)
      | Some content \<Rightarrow>
     (case binary_load lib content of
        Inl e \<Rightarrow> Inl (e, w1)
      | Inr shortcuts \<Rightarrow>
     (let w2 = (if download_art_unsupported
                then print_line ''Downloading art for existing shortcuts...'' w1 else w1)
      in case map_of shortcuts ''shortcuts'' of
           None \<Rightarrow> Inl (KeyError, w2)
         | Some (VDict sc) \<Rightarrow>
             (case index_shortcuts steamdb lib user download_art_unsupported games sc
                     Map.empty 0 w2 of
                Inl ew \<Rightarrow> Inl ew
              | Inr ((path_to_index, art_downloads), w3) \<Rightarrow>
             (let w4 = (if download_art_unsupported
                        then print_line []
                               (print_line (''Downloaded new art for '' @
                                  py_str (int art_downloads) @ '' games.'') w3)
                        else w3)
              in case compute_last_index sc of
                   Inl e \<Rightarrow> Inl (e, w4)
                 | Inr last_idx \<Rightarrow>
             (case merge_games use_uri replace_existing path_to_index games
                     \<lparr>shortcuts_dict = sc, last_index = last_idx, added = 0,
                      game_results = []\<rparr> w4 of
                (st, w5) \<Rightarrow>
                  Inr ((dict_set ''shortcuts'' (VDict (shortcuts_dict st)) shortcuts, st),
                       print_line (''Added '' @ py_str (int (added st)) @ '' new games'') w5))))
         | Some _ \<Rightarrow> Inl (AttributeError, w2))))"

text \<open>
  The function returns a pair: \<^verbatim>\<open>(None, message)\<close> or \<^verbatim>\<open>((game_results, added), None)\<close>.
  The left summand is an exception that leaves the function, with the world at that
  moment.
\<close>

type_synonym add_result = "(string list \<times> nat) option \<times> string option"

definition add_games_to_shortcut_file ::
  "'c SteamDatabase \<Rightarrow> 'b library \<Rightarrow> SteamAccount \<Rightarrow> GameDefinition list \<Rightarrow> bool \<Rightarrow> bool \<Rightarrow>
   bool \<Rightarrow> bool \<Rightarrow> ('b, 'c) world \<Rightarrow>
   py_error \<times> ('b, 'c) world + add_result \<times> ('b, 'c) world" where
  "add_games_to_shortcut_file steamdb lib user games skip_backup use_uri replace_existing
       download_art_unsupported w0 =
     (let w1 = print_notice use_uri w0;
          shortcut_file_path = shortcut_file_path_of steamdb lib user
      in if \<not> os_path_exists w1 shortcut_file_path then
           Inr ((None, Some (not_found_message shortcut_file_path)),
                print_line (not_found_message shortcut_file_path) w1)
         else
           (case load_and_merge steamdb lib user games use_uri replace_existing
                   download_art_unsupported shortcut_file_path w1 of
              Inl ew \<Rightarrow> Inl ew
            | Inr ((shortcuts, st), w6) \<Rightarrow>
                if added st = 0 then
                  Inr ((None, Some nothing_new_message), print_line nothing_new_message w6)
                else
                  (case commit_shortcuts lib shortcut_file_path skip_backup shortcuts w6 of
                     Inl ew \<Rightarrow> Inl ew
                   | Inr (u, w7) \<Rightarrow> Inr ((Some (game_results st, added st), None), w7))))"

section \<open>Selection of games and of the account\<close>

text \<open>\<^verbatim>\<open>input(prompt)\<close>: the next line of standard input, \<^verbatim>\<open>EOFError\<close> when there is none.\<close>

definition py_input ::
  "string \<Rightarrow> ('b, 'c) world \<Rightarrow> py_error \<times> ('b, 'c) world + string \<times> ('b, 'c) world" where
  "py_input prompt w =
     (case stdin w of
        [] \<Rightarrow> Inl (EOFError, w\<lparr>stdout := stdout w @ [Prompt prompt]\<rparr>)
      | l # ls \<Rightarrow> Inr (l, w\<lparr>stdin := ls, stdout := stdout w @ [Prompt prompt]\<rparr>))"

text \<open>\<^verbatim>\<open>xs[i]\<close>: a negative index counts from the end; out of range is \<^verbatim>\<open>IndexError\<close>.\<close>

definition list_get :: "'a list \<Rightarrow> int \<Rightarrow> py_error + 'a" where
  "list_get xs i =
     (if 0 \<le> i \<and> i < int (length xs) then Inr (xs ! nat i)
      else if i < 0 \<and> - int (length xs) \<le> i then Inr (xs ! nat (int (length xs) + i))
      else Inl IndexError)"

definition rjust :: "nat \<Rightarrow> string \<Rightarrow> string" where
  "rjust n s = replicate (n - length s) CHR '' '' @ s"

definition ljust :: "nat \<Rightarrow> string \<Rightarrow> string" where
  "ljust n s = s @ replicate (n - length s) CHR '' ''"

definition game_row :: "string \<Rightarrow> string \<Rightarrow> string \<Rightarrow> string \<Rightarrow> string \<Rightarrow> string" where
  "game_row a b c d e =
     rjust 3 a @ '' | '' @ ljust 25 b @ '' | '' @ ljust 10 c @ '' | '' @ ljust 45 d @
     '' | '' @ ljust 25 e"

fun print_game_rows :: "int \<Rightarrow> GameDefinition list \<Rightarrow> ('b, 'c) world \<Rightarrow> ('b, 'c) world" where
  "print_game_rows i [] w = w"
| "print_game_rows i (game # games) w =
     print_game_rows (i + 1) games
       (print_line (game_row (py_str i) (take 25 (display_name game)) (storetag game)
                      (take 45 (app_name game))
                      (executable_path game @ '' '' @ launch_arguments game)) w)"

definition print_games :: "GameDefinition list \<Rightarrow> ('b, 'c) world \<Rightarrow> ('b, 'c) world" where
  "print_games games w =
     print_game_rows 1 games
       (print_line (replicate (3 + 25 + 10 + 45 + 25) CHR ''='')
         (print_line (game_row ''Num'' ''Game Name'' ''Source'' ''App ID'' ''Executable'') w))"

text \<open>
  Lines 238 to 246 of \<^verbatim>\<open>filter_games\<close>: the loop over the comma separated tokens.
  Only \<^verbatim>\<open>ValueError\<close> is caught; the \<^verbatim>\<open>IndexError\<close> of \<^verbatim>\<open>games[int(idx) - 1]\<close>
  leaves the function.
\<close>

fun select_games ::
  "GameDefinition list \<Rightarrow> string list \<Rightarrow> GameDefinition list \<Rightarrow> ('b, 'c) world \<Rightarrow>
   py_error \<times> ('b, 'c) world + GameDefinition list option \<times> ('b, 'c) world" where
  "select_games games [] selected w = Inr (Some selected, w)"
| "select_games games (idx # selection) selected w =
     (case py_int (strip idx) of
        None \<Rightarrow>
          Inr (None,
               print_line (''Error: Expected number (1 for the first game) and not: '' @
                           [CHR 0x27] @ strip idx @ [CHR 0x27]) w)
      | Some n \<Rightarrow>
          (case list_get games (n - 1) of
             Inl e \<Rightarrow> Inl (e, w)
           | Inr game \<Rightarrow> select_games games selection (selected @ [game]) w))"

definition filter_games ::
  "GameDefinition list \<Rightarrow> ('b, 'c) world \<Rightarrow>
   py_error \<times> ('b, 'c) world + GameDefinition list option \<times> ('b, 'c) world" where
  "filter_games games w =
     (case py_input '': ''
             (print_line ''Which games do you want to install (blank = all, or comma separated list of numbers from table)?'' w) of
        Inl ew \<Rightarrow> Inl ew
      | Inr (line, w1) \<Rightarrow>
          (let selection = strip line
           in if selection = [] then Inr (Some games, w1)
              else (case select_games games (split_on CHR '','' selection) [] w1 of
                      Inl ew \<Rightarrow> Inl ew
                    | Inr (None, w2) \<Rightarrow> Inr (None, w2)
                    | Inr (Some selected, w2) \<Rightarrow>
                        Inr (Some selected,
                             print_line (''Selected '' @ py_str (int (length selected)) @
                                         '' games to install'') w2))))"

definition account_row :: "string \<Rightarrow> string \<Rightarrow> string \<Rightarrow> string" where
  "account_row a b c = rjust 3 a @ '' | '' @ ljust 17 b @ '' | '' @ ljust 25 c"

fun print_account_rows :: "int \<Rightarrow> SteamAccount list \<Rightarrow> ('b, 'c) world \<Rightarrow> ('b, 'c) world" where
  "print_account_rows i [] w = w"
| "print_account_rows i (account # accounts) w =
     print_account_rows (i + 1) accounts
       (print_line (account_row (py_str i) (steamid account) (username account)) w)"

text \<open>
  \<^verbatim>\<open>prompt_for_steam_account\<close>.  The result \<open>None\<close> is the \<^verbatim>\<open>return None\<close> of line 290.
\<close>

definition prompt_for_steam_account ::
  "SteamAccount list \<Rightarrow> ('b, 'c) world \<Rightarrow>
   py_error \<times> ('b, 'c) world + string option \<times> ('b, 'c) world" where
  "prompt_for_steam_account accounts w =
     (if length accounts = 1 then Inr (Some (steamid (hd accounts)), w)
      else
        (let w1 = print_account_rows 1 accounts
                    (print_line (replicate ((7 + 3) + 25 + 3 + 17 + 3) CHR ''='')
                      (print_line (account_row ''Num'' ''SteamID'' ''Display Name'')
                        (print_line ''Found multiple Steam accounts:'' w)))
         in case accounts of
              [] \<Rightarrow> Inl (IndexError, w1)
            | first # others \<Rightarrow>
                (case py_input '': ''
                        (print_line (''Leave empty for `'' @ username first @
                           ''`, or input a steamid, or the Num from the list'') w1) of
                   Inl ew \<Rightarrow> Inl ew
                 | Inr (line, w2) \<Rightarrow>
                     (let choice = strip line
                      in if choice = [] then Inr (Some (steamid first), w2)
                         else if choice \<in> set (map steamid accounts) then Inr (Some choice, w2)
                         else
                           (case py_int choice of
                              None \<Rightarrow>
                                Inr (None,
                                     print_line (''Error: Expected number (1 for the first user) and not: '' @
                                                 [CHR 0x27] @ choice @ [CHR 0x27]) w2)
                            | Some idx \<Rightarrow>
                                if idx \<le> int (length accounts) then
                                  (case list_get accounts (idx - 1) of
                                     Inl e \<Rightarrow> Inl (e, w2)
                                   | Inr account \<Rightarrow> Inr (Some (steamid account), w2))
                                else Inr (None, w2))))))"

section \<open>\<^verbatim>\<open>main\<close>\<close>

text \<open>
  The parsed command line, as \<^verbatim>\<open>parse_arguments\<close> returns it (the options that
  \<^verbatim>\<open>main\<close> reads after the games have been collected).
\<close>

record arguments =
  arg_all :: bool
  arg_replace_existing :: bool
  arg_live_dangerously :: bool
  arg_steamid :: string
  arg_steam_path :: string
  arg_use_uri :: bool
  arg_download_art :: bool
  arg_download_art_all_shortcuts :: bool

text \<open>Lines 112 and 113 of \<^verbatim>\<open>parse_arguments\<close>.\<close>

definition parse_arguments :: "arguments \<Rightarrow> arguments" where
  "parse_arguments args =
     (if arg_download_art_all_shortcuts args then args\<lparr>arg_download_art := True\<rparr> else args)"

text \<open>
  Lines 486 to 488: \<^verbatim>\<open>while not picks: picks = filter_games(games)\<close>.  The loop goes
  on while the result is \<^verbatim>\<open>None\<close> or an empty list; \<open>None\<close> is a run that never
  leaves the loop.
\<close>

partial_function (option) pick_games ::
  "GameDefinition list \<Rightarrow> ('b, 'c) world \<Rightarrow>
   (py_error \<times> ('b, 'c) world + GameDefinition list \<times> ('b, 'c) world) option" where
  "pick_games games w =
     (case filter_games games w of
        Inl ew \<Rightarrow> Some (Inl ew)
      | Inr (None, w1) \<Rightarrow> pick_games games w1
      | Inr (Some picks, w1) \<Rightarrow>
          if picks = [] then pick_games games w1 else Some (Inr (picks, w1)))"

text \<open>
  Lines 530 to 532: \<^verbatim>\<open>while not steamid: steamid = prompt_for_steam_account(accounts)\<close>.
\<close>

partial_function (option) pick_account ::
  "SteamAccount list \<Rightarrow> ('b, 'c) world \<Rightarrow>
   (py_error \<times> ('b, 'c) world + string \<times> ('b, 'c) world) option" where
  "pick_account accounts w =
     (case prompt_for_steam_account accounts w of
        Inl ew \<Rightarrow> Some (Inl ew)
      | Inr (None, w1) \<Rightarrow> pick_account accounts w1
      | Inr (Some sid, w1) \<Rightarrow>
          if sid = [] then pick_account accounts w1 else Some (Inr (sid, w1)))"

text \<open>
  Lines 513 to 518: the loop that looks the user name up; the last account with that
  name wins.
\<close>

fun lookup_username :: "string \<Rightarrow> SteamAccount list \<Rightarrow> string \<Rightarrow> string" where
  "lookup_username name [] sid = sid"
| "lookup_username name (account # accounts) sid =
     lookup_username name accounts (if name = username account then steamid account else sid)"

definition steamid_not_found_lines :: "string \<Rightarrow> string list" where
  "steamid_not_found_lines sid =
     [warn_sign @ '' '' @ warn_sign @ '' WARNING: '' @ warn_sign @ '' '' @ warn_sign,
      ''SteamID for `'' @ sid @ ''` not found!'',
      ''The SteamID you provided could not be found on your local machine.'',
      ''If you are providing the human readable name and not a numeric SteamID, make sure you spell it correctly'']"

text \<open>
  Lines 507 to 534: from the command line value \<^verbatim>\<open>steamid\<close> and the enumerated
  accounts to the account \<^verbatim>\<open>user\<close>.  \<^verbatim>\<open>next\<close> over a generator that yields nothing
  raises \<^verbatim>\<open>StopIteration\<close>.
\<close>

definition resolve_account ::
  "string \<Rightarrow> SteamAccount list \<Rightarrow> ('b, 'c) world \<Rightarrow>
   (py_error \<times> ('b, 'c) world + SteamAccount \<times> ('b, 'c) world) option" where
  "resolve_account sid0 accounts w0 =
     (let w1 = (if length accounts = 1 \<and> sid0 \<noteq> []
                then print_line (''FYI: There is only one Steam account found on your computer, so you don'' @
                                 [CHR 0x27] @ ''t need to provide --steamid'') w0
                else w0);
          found = (if \<not> isdigit sid0 \<and> sid0 \<noteq> [] then lookup_username sid0 accounts sid0 else sid0);
          missing = (\<not> isdigit sid0 \<and> sid0 \<noteq> [] \<and> sid0 = found);
          w2 = (if missing then fold print_line (steamid_not_found_lines found) w1 else w1);
          sid1 = (if missing then [] else found)
      in case (if sid1 = [] then pick_account accounts w2 else Some (Inr (sid1, w2))) of
           None \<Rightarrow> None
         | Some (Inl ew) \<Rightarrow> Some (Inl ew)
         | Some (Inr (sid, w3)) \<Rightarrow>
             (case find (\<lambda>user. steamid user = sid) accounts of
                None \<Rightarrow> Some (Inl (StopIteration, w3))
              | Some user \<Rightarrow> Some (Inr (user, w3))))"

text \<open>Lines 536 to 554: the art of the chosen games.\<close>

definition download_selected_art ::
  "'c SteamDatabase \<Rightarrow> arguments \<Rightarrow> SteamAccount \<Rightarrow> GameDefinition list \<Rightarrow>
   GameDefinition list \<Rightarrow> ('b, 'c) world \<Rightarrow> ('b, 'c) world" where
  "download_selected_art steamdb args user all_games games w =
     (if arg_download_art args then
        (let get_art_for_games = (if arg_download_art_all_shortcuts args then all_games else games);
             w1 = (if arg_download_art_all_shortcuts args
                   then print_line ([CHR 0x0A] @ ''Downloading art for all detected games...'') w
                   else print_line ([CHR 0x0A] @ ''Downloading art for selected games...'') w);
             w2 = (if arg_replace_existing args
                   then print_line (''To replace existing art, delete the images in '' @
                                    get_grid_folder steamdb user (steam_path steamdb)) w1
                   else w1)
         in case download_art_multiple steamdb (art_cache w2) user get_art_for_games of
              (count, c) \<Rightarrow>
                print_line []
                  (print_line (''Downloaded new art for '' @ py_str (int count) @ '' games.'')
                     (w2\<lparr>art_cache := c\<rparr>)))
      else w)"

text \<open>
  \<^verbatim>\<open>main\<close> from line 480 on: \<open>collected\<close> is the list that the source adapters have
  produced at lines 473 to 479.  The result is the value that \<^verbatim>\<open>main\<close> returns, or the
  exception that leaves it.  The value of \<^verbatim>\<open>add_games_to_shortcut_file\<close> is dropped at
  line 557.
\<close>

definition main ::
  "arguments \<Rightarrow> GameDefinition list \<Rightarrow> 'c SteamDatabase \<Rightarrow> 'b library \<Rightarrow> ('b, 'c) world \<Rightarrow>
   (py_error \<times> ('b, 'c) world + int \<times> ('b, 'c) world) option" where
  "main raw_args collected steamdb lib w0 =
     (let args = parse_arguments raw_args;
          w1 = print_games collected (print_line [] w0);
          all_games = collected
      in case (if \<not> arg_all args then pick_games collected w1 else Some (Inr (collected, w1))) of
           None \<Rightarrow> None
         | Some (Inl ew) \<Rightarrow> Some (Inl ew)
         | Some (Inr (games, w2)) \<Rightarrow>
             (case enumerate_steam_accounts steamdb of
                Inl e \<Rightarrow>
                  if e = FileNotFoundError then
                    Some (Inr (- 1,
                      w2\<lparr>stdout := stdout w2 @
                          [LineExc (''Steam path not found: '' @ [CHR 0x27] @ arg_steam_path args @
                                    [CHR 0x27] @ ''. Use --steam-path for non-standard installs.'') e]\<rparr>))
                  else Some (Inl (e, w2))
              | Inr accounts \<Rightarrow>
                  (case resolve_account (arg_steamid args) accounts w2 of
                     None \<Rightarrow> None
                   | Some (Inl ew) \<Rightarrow> Some (Inl ew)
                   | Some (Inr (user, w3)) \<Rightarrow>
                       (let w4 = download_selected_art steamdb args user all_games games w3;
                            w5 = print_line (''Installing shortcuts for SteamID '' @ username user @
                                             '' `'' @ steamid user @ ''`'') w4
                        in case add_games_to_shortcut_file steamdb lib user games
                                  (arg_live_dangerously args) (arg_use_uri args)
                                  (arg_replace_existing args)
                                  (arg_download_art_all_shortcuts args) w5 of
                             Inl ew \<Rightarrow> Some (Inl ew)
                           | Inr (r, w6) \<Rightarrow>
                               Some (Inr (0, print_line ([CHR 0x0A] @ ''Done.'') w6))))))"

text \<open>
  Lines 571 and 572, \<^verbatim>\<open>if __name__ == "__main__": main()\<close>: the exit status of the
  process is 1 after an uncaught exception and 0 when \<^verbatim>\<open>main\<close> returns, whatever
  value it returns.
\<close>

definition exit_status :: "(py_error \<times> 'w + int \<times> 'w) \<Rightarrow> int" where
  "exit_status r = (case r of Inl ew \<Rightarrow> 1 | Inr vw \<Rightarrow> 0)"

section \<open>Notions used in the statements\<close>

text \<open>
  The launch target of a store entry, as lines 384 to 392 determine it: the value under
  \<^verbatim>\<open>Exe\<close>, or under \<^verbatim>\<open>exe\<close>, when it is not false; \<open>None\<close> for an entry that gets the
  warning.
\<close>

definition entry_target :: "vdf_value \<Rightarrow> vdf_value option" where
  "entry_target v =
     (case v of
        VDict d \<Rightarrow> (if py_not (entry_exe d) then None else entry_exe d)
      | _ \<Rightarrow> None)"

definition has_target :: "vdf_value \<Rightarrow> py_dict \<Rightarrow> bool" where
  "has_target t sc = list_ex (\<lambda>kv. entry_target (snd kv) = Some t) sc"

definition game_hit :: "bool \<Rightarrow> py_dict \<Rightarrow> GameDefinition \<Rightarrow> bool" where
  "game_hit use_uri sc game = has_target (VStr (shortcut_target game use_uri)) sc"

text \<open>The key under which the last entry with a given launch target is stored.\<close>

definition key_of_target :: "py_dict \<Rightarrow> vdf_value \<Rightarrow> string option" where
  "key_of_target sc t =
     (case filter (\<lambda>kv. entry_target (snd kv) = Some t) sc of
        [] \<Rightarrow> None
      | kv # kvs \<Rightarrow> Some (fst (last (kv # kvs))))"

text \<open>What the loop of lines 383 to 408 prints for the entries without launch target.\<close>

definition entry_warnings :: "py_dict \<Rightarrow> printed list" where
  "entry_warnings sc =
     concat (map (\<lambda>kv. if entry_target (snd kv) = None then [Line no_exe_warning, Repr (snd kv)]
                        else []) sc)"

text \<open>
  The loop of lines 383 to 408 runs through without exception on these entries: each is
  a dictionary, no launch target is a dictionary, and none is an integer when art is
  asked for.
\<close>

definition index_ok :: "bool \<Rightarrow> py_dict \<Rightarrow> bool" where
  "index_ok download_art_unsupported sc =
     list_all (\<lambda>kv. (case snd kv of VDict d \<Rightarrow> True | _ \<Rightarrow> False) \<and>
                     (case entry_target (snd kv) of
                        Some (VDict d) \<Rightarrow> False
                      | Some (VInt n) \<Rightarrow> \<not> download_art_unsupported
                      | _ \<Rightarrow> True)) sc"

text \<open>The entries appended for a list of games, the first after index \<open>l\<close>.\<close>

fun new_entries :: "bool \<Rightarrow> int \<Rightarrow> GameDefinition list \<Rightarrow> py_dict" where
  "new_entries use_uri l [] = []"
| "new_entries use_uri l (game # games) =
     (py_str (l + 1), VDict (to_shortcut game use_uri)) # new_entries use_uri (l + 1) games"

text \<open>The entries after each game of a list has overwritten the entry of its target.\<close>

fun replace_entries :: "bool \<Rightarrow> py_dict \<Rightarrow> GameDefinition list \<Rightarrow> py_dict \<Rightarrow> py_dict" where
  "replace_entries use_uri sc [] d = d"
| "replace_entries use_uri sc (game # games) d =
     replace_entries use_uri sc games
       (case key_of_target sc (VStr (shortcut_target game use_uri)) of
          None \<Rightarrow> d
        | Some k \<Rightarrow> dict_set k (VDict (to_shortcut game use_uri)) d)"

text \<open>
  The shortcut dictionary after the loop over the games, the number of games counted and
  the messages collected, in terms of the dictionary \<open>sc\<close> read from the file and its
  last index \<open>l\<close>.
\<close>

definition merged_dict :: "bool \<Rightarrow> bool \<Rightarrow> py_dict \<Rightarrow> int \<Rightarrow> GameDefinition list \<Rightarrow> py_dict" where
  "merged_dict use_uri replace_existing sc l games =
     (if replace_existing
      then replace_entries use_uri sc (filter (game_hit use_uri sc) games) sc else sc) @
     new_entries use_uri l (filter (\<lambda>g. \<not> game_hit use_uri sc g) games)"

definition added_count :: "bool \<Rightarrow> bool \<Rightarrow> py_dict \<Rightarrow> GameDefinition list \<Rightarrow> nat" where
  "added_count use_uri replace_existing sc games =
     (if replace_existing then length games
      else length (filter (\<lambda>g. \<not> game_hit use_uri sc g) games))"

definition skip_results :: "bool \<Rightarrow> bool \<Rightarrow> py_dict \<Rightarrow> GameDefinition list \<Rightarrow> string list" where
  "skip_results use_uri replace_existing sc games =
     (if replace_existing then [] else map skip_message (filter (game_hit use_uri sc) games))"

text \<open>
  The shortcut dictionary stored in the file at a path: the file decoded, then its
  entry \<^verbatim>\<open>shortcuts\<close>.
\<close>

definition stored_shortcuts :: "'b library \<Rightarrow> ('b, 'c) world \<Rightarrow> string \<Rightarrow> py_dict option" where
  "stored_shortcuts lib w p =
     (case files w p of
        None \<Rightarrow> None
      | Some content \<Rightarrow>
          (case binary_load lib content of
             Inl e \<Rightarrow> None
           | Inr shortcuts \<Rightarrow>
               (case map_of shortcuts ''shortcuts'' of
                  Some (VDict sc) \<Rightarrow> Some sc
                | _ \<Rightarrow> None)))"

text \<open>The codec reads back what it has written.\<close>

definition codec_ok :: "'b library \<Rightarrow> bool" where
  "codec_ok lib = (\<forall>d b. binary_dumps lib d = Inr b \<longrightarrow> binary_load lib b = Inr d)"

text \<open>The outcome of a call without the world, and the world it leaves.\<close>

definition outcome :: "('e \<times> 'w + 'a \<times> 'w) \<Rightarrow> 'e + 'a" where
  "outcome r = map_sum fst fst r"

definition world_after :: "('e \<times> 'w + 'a \<times> 'w) \<Rightarrow> 'w" where
  "world_after r = (case r of Inl ew \<Rightarrow> snd ew | Inr aw \<Rightarrow> snd aw)"

section \<open>A small installation, for concrete runs\<close>

definition demo_lib :: "py_dict library" where
  "demo_lib =
     \<lparr>os_path_join = (\<lambda>ps. concat (map (\<lambda>p. p @ ''/'') (butlast ps)) @ last ps),
      path_parent = (\<lambda>p. p), binary_load = Inr, binary_dumps = Inr\<rparr>"

definition demo_user :: SteamAccount where
  "demo_user = \<lparr>steamid = ''7'', username = ''bob''\<rparr>"

definition demo_db :: "unit SteamDatabase" where
  "demo_db =
     \<lparr>steam_path = ''S'', download_art = (\<lambda>c u p d a. (False, c)),
      download_art_multiple = (\<lambda>c u gs. (0, c)),
      enumerate_steam_accounts = Inr [demo_user],
      get_grid_folder = (\<lambda>u p. p)\<rparr>"

definition demo_path :: string where
  "demo_path = ''S/userdata/7/config/shortcuts.vdf''"

definition demo_game :: "string \<Rightarrow> string \<Rightarrow> GameDefinition" where
  "demo_game p n =
     \<lparr>executable_path = p, display_name = n, app_name = n, install_folder = ''/g'',
      launch_arguments = [], uri = None, storetag = ''epic'', icon = p\<rparr>"

definition demo_world :: "(string \<rightharpoonup> py_dict) \<Rightarrow> string list \<Rightarrow> (py_dict, unit) world" where
  "demo_world fs inp =
     \<lparr>files = fs, denied = (\<lambda>p. False), clock = ''20240101-000000'', stdin = inp,
      stdout = [], art_cache = ()\<rparr>"

definition demo_store :: "py_dict \<Rightarrow> py_dict" where
  "demo_store sc = [(''shortcuts'', VDict sc)]"

definition demo_entry :: "string \<Rightarrow> vdf_value" where
  "demo_entry p = VDict [(''appname'', VStr ''old''), (''Exe'', VStr p)]"

definition demo_args :: arguments where
  "demo_args =
     \<lparr>arg_all = True, arg_replace_existing = False, arg_live_dangerously = False,
      arg_steamid = [], arg_steam_path = ''S'', arg_use_uri = False, arg_download_art = False,
      arg_download_art_all_shortcuts = False\<rparr>"

section \<open>Lemmas: printing, \<^verbatim>\<open>int\<close> and \<^verbatim>\<open>str\<close>\<close>

lemma files_print_line [simp]: "files (print_line s w) = files w"
  and denied_print_line [simp]: "denied (print_line s w) = denied w"
  and clock_print_line [simp]: "clock (print_line s w) = clock w"
  and stdin_print_line [simp]: "stdin (print_line s w) = stdin w"
  and art_cache_print_line [simp]: "art_cache (print_line s w) = art_cache w"
  and stdout_print_line [simp]: "stdout (print_line s w) = stdout w @ [Line s]"
  by (simp_all add: print_line_def)

lemma files_print_value [simp]: "files (print_value v w) = files w"
  and denied_print_value [simp]: "denied (print_value v w) = denied w"
  and clock_print_value [simp]: "clock (print_value v w) = clock w"
  and stdin_print_value [simp]: "stdin (print_value v w) = stdin w"
  and art_cache_print_value [simp]: "art_cache (print_value v w) = art_cache w"
  and stdout_print_value [simp]: "stdout (print_value v w) = stdout w @ [Repr v]"
  by (simp_all add: print_value_def)

lemma digit_char_is_digit: "d < 10 \<Longrightarrow> is_digit (digit_char d)"
proof -
  assume "d < 10"
  then have "d \<in> {0, 1, 2, 3, 4, 5, 6, 7, 8, 9}" by auto
  then show ?thesis by (auto simp: is_digit_def digit_char_def)
qed

lemma digit_val_digit_char: "d < 10 \<Longrightarrow> digit_val (digit_char d) = d"
proof -
  assume "d < 10"
  then have "d \<in> {0, 1, 2, 3, 4, 5, 6, 7, 8, 9}" by auto
  then show ?thesis by (auto simp: digit_val_def digit_char_def)
qed

lemma is_digit_not_space: "is_digit c \<Longrightarrow> \<not> is_space c"
  by (auto simp: is_digit_def is_space_def)

lemma is_digit_not_sign: "is_digit c \<Longrightarrow> c \<noteq> CHR ''-'' \<and> c \<noteq> CHR ''+'' \<and> c \<noteq> CHR ''_''"
  by (auto simp: is_digit_def)

lemma py_digits_all_digits:
  "list_all is_digit s \<Longrightarrow>
   py_digits acc ok s =
     (if s = [] \<and> \<not> ok then None else Some (foldl (\<lambda>a c. 10 * a + digit_val c) acc s))"
  by (induction s arbitrary: acc ok) auto

declare str_nat.simps [simp del]

lemma str_nat_digits: "list_all is_digit (str_nat n)"
proof (induction n rule: str_nat.induct)
  case (1 n)
  show ?case
  proof (cases "n < 10")
    case True
    then show ?thesis by (subst str_nat.simps) (simp add: digit_char_is_digit)
  next
    case False
    with 1 show ?thesis by (subst str_nat.simps) (simp add: digit_char_is_digit)
  qed
qed

lemma str_nat_nonempty: "str_nat n \<noteq> []"
  by (subst str_nat.simps) simp

lemma str_nat_value: "foldl (\<lambda>a c. 10 * a + digit_val c) 0 (str_nat n) = n"
proof (induction n rule: str_nat.induct)
  case (1 n)
  show ?case
  proof (cases "n < 10")
    case True
    then show ?thesis by (subst str_nat.simps) (simp add: digit_val_digit_char)
  next
    case False
    with 1 show ?thesis by (subst str_nat.simps) (simp add: digit_val_digit_char)
  qed
qed

lemma py_digits_str_nat: "py_digits 0 False (str_nat n) = Some n"
  by (simp add: py_digits_all_digits str_nat_digits str_nat_nonempty str_nat_value)

lemma strip_no_space:
  assumes "s \<noteq> []" "\<not> is_space (hd s)" "\<not> is_space (last s)"
  shows "strip s = s"
proof -
  from assms have a: "dropWhile is_space s = s" by (cases s) auto
  from assms have "rev s \<noteq> []" "\<not> is_space (hd (rev s))" by (auto simp: hd_rev)
  then have "dropWhile is_space (rev s) = rev s" by (cases "rev s") auto
  with a show ?thesis by (simp add: strip_def)
qed

lemma str_nat_hd_last: "is_digit (hd (str_nat n)) \<and> is_digit (last (str_nat n))"
  using str_nat_digits [of n] str_nat_nonempty [of n]
  by (cases "str_nat n") (auto simp: list_all_iff)

lemma py_int_py_str: "py_int (py_str i) = Some i"
proof (cases "i < 0")
  case True
  let ?s = "CHR ''-'' # str_nat (nat (- i))"
  have "strip ?s = ?s"
    using str_nat_hd_last [of "nat (- i)"] str_nat_nonempty [of "nat (- i)"]
    by (intro strip_no_space) (auto simp: is_space_def dest: is_digit_not_space)
  with True show ?thesis
    by (simp add: py_int_def py_str_def py_digits_str_nat)
next
  case False
  let ?s = "str_nat (nat i)"
  have s: "strip ?s = ?s"
    using str_nat_hd_last [of "nat i"] str_nat_nonempty [of "nat i"]
    by (intro strip_no_space) (auto dest: is_digit_not_space)
  obtain c cs where ccs: "?s = c # cs" using str_nat_nonempty [of "nat i"] by (cases ?s) auto
  then have "is_digit c" using str_nat_hd_last [of "nat i"] by simp
  then have c: "c \<noteq> CHR ''-''" "c \<noteq> CHR ''+''" by (auto dest: is_digit_not_sign)
  have "py_digits 0 False (c # cs) = Some (nat i)" using py_digits_str_nat [of "nat i"] ccs by simp
  with False s ccs c show ?thesis
    by (simp add: py_int_def py_str_def)
qed

lemma py_int_nonempty: "py_int k = Some n \<Longrightarrow> k \<noteq> []"
  by (auto simp: py_int_def strip_def)

section \<open>Lemmas: dictionaries\<close>

lemma dict_set_fresh: "k \<notin> fst ` set d \<Longrightarrow> dict_set k v d = d @ [(k, v)]"
  by (induction d) auto

lemma dict_set_keys: "k \<in> fst ` set d \<Longrightarrow> map fst (dict_set k v d) = map fst d"
  by (induction d) force+

lemma dict_set_append: "k \<in> fst ` set d \<Longrightarrow> dict_set k v (d @ e) = dict_set k v d @ e"
  by (induction d) force+

lemma map_of_dict_set: "map_of (dict_set k v d) = (map_of d)(k \<mapsto> v)"
  by (induction d) (auto simp: fun_eq_iff)

lemma dict_set_nth:
  "distinct (map fst d) \<Longrightarrow> j < length d \<Longrightarrow> k \<in> fst ` set d \<Longrightarrow>
   dict_set k v d ! j = (if fst (d ! j) = k then (k, v) else d ! j)"
proof (induction d arbitrary: j)
  case Nil
  then show ?case by simp
next
  case (Cons a d)
  show ?case
  proof (cases j)
    case 0
    then show ?thesis by (cases a) auto
  next
    case (Suc j')
    with Cons show ?thesis by (cases a) (auto simp: rev_image_eqI)
  qed
qed

lemma dict_set_length: "k \<in> fst ` set d \<Longrightarrow> length (dict_set k v d) = length d"
  using dict_set_keys [of k d v] by (metis length_map)

section \<open>Lemmas: the loop that builds \<^verbatim>\<open>path_to_index\<close>\<close>

lemma entry_target_VDict:
  "entry_target (VDict d) =
     (case entry_exe d of None \<Rightarrow> None | Some e \<Rightarrow> if truthy e then Some e else None)"
  by (simp add: entry_target_def py_not_def split: option.splits)

lemma entry_target_truthy: "entry_target v = Some e \<Longrightarrow> truthy e"
  by (cases v) (auto simp: entry_target_VDict split: option.splits if_splits, auto simp: entry_target_def)

lemma key_of_target_Nil [simp]: "key_of_target [] t = None"
  by (simp add: key_of_target_def)

lemma key_of_target_Cons:
  "key_of_target (kv # items) t =
     (case key_of_target items t of
        Some k \<Rightarrow> Some k
      | None \<Rightarrow> if entry_target (snd kv) = Some t then Some (fst kv) else None)"
  by (simp add: key_of_target_def split: list.splits)

lemma entry_warnings_Nil [simp]: "entry_warnings [] = []"
  by (simp add: entry_warnings_def)

lemma entry_warnings_Cons:
  "entry_warnings (kv # items) =
     (if entry_target (snd kv) = None then [Line no_exe_warning, Repr (snd kv)] else []) @
     entry_warnings items"
  by (simp add: entry_warnings_def)

lemma index_ok_Nil [simp]: "index_ok dau []"
  by (simp add: index_ok_def)

lemma index_ok_Cons:
  "index_ok dau (kv # items) =
     ((case snd kv of VDict d \<Rightarrow> True | _ \<Rightarrow> False) \<and>
      (case entry_target (snd kv) of
         Some (VDict d) \<Rightarrow> False
       | Some (VInt n) \<Rightarrow> \<not> dau
       | _ \<Rightarrow> True) \<and> index_ok dau items)"
  by (simp add: index_ok_def)

lemma index_shortcuts_result:
  "index_shortcuts sdb lib user dau games items pti art w = Inr ((pti', art'), w') \<Longrightarrow>
   (\<forall>t. pti' t = (case key_of_target items t of None \<Rightarrow> pti t | Some k \<Rightarrow> Some k)) \<and>
   files w' = files w \<and> denied w' = denied w \<and> clock w' = clock w \<and> stdin w' = stdin w \<and>
   stdout w' = stdout w @ entry_warnings items \<and> index_ok dau items"
proof (induction items arbitrary: pti art w)
  case Nil
  then show ?case by simp
next
  case (Cons kv items)
  obtain k v where kv: "kv = (k, v)" by (cases kv)
  from Cons.prems obtain d where v: "v = VDict d"
    by (cases v) (auto simp: kv)
  show ?case
  proof (cases "entry_target v")
    case None
    then have "index_shortcuts sdb lib user dau games (kv # items) pti art w =
        index_shortcuts sdb lib user dau games items pti art
          (print_value v (print_line no_exe_warning w))"
      by (auto simp: kv v entry_target_VDict split: option.splits if_splits)
    with Cons.prems have
      "index_shortcuts sdb lib user dau games items pti art
          (print_value v (print_line no_exe_warning w)) = Inr ((pti', art'), w')" by simp
    from Cons.IH [OF this] None show ?thesis
      by (simp add: kv v key_of_target_Cons entry_warnings_Cons index_ok_Cons split: option.splits)
  next
    case (Some e)
    then have ee: "entry_exe d = Some e" and te: "truthy e"
      by (auto simp: v entry_target_VDict split: option.splits if_splits)
    from Cons.prems ee te obtain art1 w1 where
      step: "index_shortcuts sdb lib user dau games items (pti(e \<mapsto> k)) art1 w1 = Inr ((pti', art'), w')"
      and w1: "files w1 = files w" "denied w1 = denied w" "clock w1 = clock w" "stdin w1 = stdin w"
        "stdout w1 = stdout w"
      and ok: "(case e of VDict d \<Rightarrow> False | VInt n \<Rightarrow> \<not> dau | _ \<Rightarrow> True)"
      by (cases e) (auto simp: kv v split: if_splits prod.splits)
    from Cons.IH [OF step] w1 ok Some show ?thesis
      by (auto simp: kv v key_of_target_Cons entry_warnings_Cons index_ok_Cons split: option.splits)
  qed
qed

lemma index_shortcuts_runs:
  "index_ok dau items \<Longrightarrow>
   \<exists>r w'. index_shortcuts sdb lib user dau games items pti art w = Inr (r, w')"
proof (induction items arbitrary: pti art w)
  case Nil
  then show ?case by simp
next
  case (Cons kv items)
  obtain k v where kv: "kv = (k, v)" by (cases kv)
  from Cons.prems obtain d where v: "v = VDict d"
    by (cases v) (auto simp: kv index_ok_Cons)
  from Cons.prems have ok: "index_ok dau items" by (simp add: index_ok_Cons)
  note IH = Cons.IH [OF ok]
  show ?case
  proof (cases "entry_target v")
    case None
    then have "index_shortcuts sdb lib user dau games (kv # items) pti art w =
        index_shortcuts sdb lib user dau games items pti art
          (print_value v (print_line no_exe_warning w))"
      by (auto simp: kv v entry_target_VDict split: option.splits if_splits)
    with IH show ?thesis by simp
  next
    case (Some e)
    then have ee: "entry_exe d = Some e" and te: "truthy e"
      by (auto simp: v entry_target_VDict split: option.splits if_splits)
    from Cons.prems Some have e: "(case e of VDict d \<Rightarrow> False | VInt n \<Rightarrow> \<not> dau | _ \<Rightarrow> True)"
      by (simp add: index_ok_Cons kv)
    then have "\<exists>art1 w1. index_shortcuts sdb lib user dau games (kv # items) pti art w =
        index_shortcuts sdb lib user dau games items (pti(e \<mapsto> k)) art1 w1"
      using ee te by (cases e) (auto simp: kv v split: prod.splits)
    with IH show ?thesis by metis
  qed
qed

section \<open>Lemmas: \<^verbatim>\<open>last_index\<close>\<close>

lemma key_of_target_None: "key_of_target sc t = None \<longleftrightarrow> \<not> has_target t sc"
  by (induction sc) (auto simp: key_of_target_Cons has_target_def split: option.splits)

lemma key_of_target_in_keys: "key_of_target sc t = Some k \<Longrightarrow> k \<in> fst ` set sc"
  by (induction sc) (auto simp: key_of_target_Cons split: option.splits if_splits)

lemma key_of_target_entry:
  "key_of_target sc t = Some k \<Longrightarrow> \<exists>v. (k, v) \<in> set sc \<and> entry_target v = Some t"
  by (induction sc) (auto simp: key_of_target_Cons split: option.splits if_splits)

lemma int_keys_Some:
  "int_keys sc = Some ns \<longleftrightarrow> map (\<lambda>kv. py_int (fst kv)) sc = map Some ns"
proof (induction sc arbitrary: ns)
  case Nil
  then show ?case by auto
next
  case (Cons kv sc)
  obtain k v where kv: "kv = (k, v)" by (cases kv)
  show ?case
    by (cases ns) (auto simp: kv Cons.IH split: option.splits)
qed

lemma int_keys_append:
  "int_keys (a @ b) =
     (case int_keys a of None \<Rightarrow> None | Some x \<Rightarrow> map_option ((@) x) (int_keys b))"
proof (induction a)
  case Nil
  show ?case by (cases "int_keys b") auto
next
  case (Cons kv a)
  obtain k v where kv: "kv = (k, v)" by (cases kv)
  show ?case
    by (cases "int_keys b") (auto simp: kv Cons.IH split: option.splits)
qed

lemma compute_last_index_eq:
  "compute_last_index sc =
     (case int_keys sc of
        None \<Rightarrow> Inl ValueError
      | Some ns \<Rightarrow> Inr (if ns = [] then 0 else Max (set ns)))"
proof (cases sc)
  case Nil
  then show ?thesis by (simp add: compute_last_index_def)
next
  case (Cons kv sc')
  show ?thesis
  proof (cases "int_keys sc")
    case None
    then show ?thesis by (simp add: compute_last_index_def Cons)
  next
    case (Some ns)
    then obtain n ns' where ns: "ns = n # ns'"
      by (cases ns) (auto simp: Cons int_keys_Some)
    have "fold max ns' n = Max (set (n # ns'))" by (simp only: Max.set_eq_fold)
    with Some ns show ?thesis by (simp add: compute_last_index_def Cons)
  qed
qed

lemma compute_last_index_keys:
  assumes "compute_last_index sc = Inr l"
  shows "(sc = [] \<longrightarrow> l = 0)"
    and "(sc \<noteq> [] \<longrightarrow> (\<exists>k\<in>fst ` set sc. py_int k = Some l))"
    and "\<forall>k\<in>fst ` set sc. \<exists>n. py_int k = Some n \<and> n \<le> l"
proof -
  from assms obtain ns where ns: "int_keys sc = Some ns"
    and l: "l = (if ns = [] then 0 else Max (set ns))"
    by (auto simp: compute_last_index_eq split: option.splits)
  from ns have m: "map (\<lambda>kv. py_int (fst kv)) sc = map Some ns" by (simp add: int_keys_Some)
  then have len: "length sc = length ns" by (metis length_map)
  show "sc = [] \<longrightarrow> l = 0" using l len by auto
  show "sc \<noteq> [] \<longrightarrow> (\<exists>k\<in>fst ` set sc. py_int k = Some l)"
  proof
    assume "sc \<noteq> []"
    with len have ne: "ns \<noteq> []" by auto
    then have "Max (set ns) \<in> set ns" by (intro Max_in) auto
    with l ne have "Some l \<in> set (map Some ns)" by simp
    with m have "Some l \<in> set (map (\<lambda>kv. py_int (fst kv)) sc)" by simp
    then show "\<exists>k\<in>fst ` set sc. py_int k = Some l" by force
  qed
  show "\<forall>k\<in>fst ` set sc. \<exists>n. py_int k = Some n \<and> n \<le> l"
  proof
    fix k assume "k \<in> fst ` set sc"
    then have "py_int k \<in> set (map (\<lambda>kv. py_int (fst kv)) sc)" by auto
    with m have "py_int k \<in> set (map Some ns)" by simp
    then obtain n where n: "py_int k = Some n" "n \<in> set ns" by auto
    then have "ns \<noteq> []" by auto
    with n l have "n \<le> l" by simp
    with n show "\<exists>n. py_int k = Some n \<and> n \<le> l" by blast
  qed
qed

lemma compute_last_index_snoc:
  assumes "compute_last_index sc = Inr l"
  shows "compute_last_index (sc @ [(py_str (l + 1), v)]) = Inr (l + 1)"
proof -
  from assms obtain ns where ns: "int_keys sc = Some ns"
    and l: "l = (if ns = [] then 0 else Max (set ns))"
    by (auto simp: compute_last_index_eq split: option.splits)
  have k: "int_keys (sc @ [(py_str (l + 1), v)]) = Some (ns @ [l + 1])"
    by (simp add: int_keys_append ns py_int_py_str)
  have "Max (set (ns @ [l + 1])) = l + 1"
  proof (cases "ns = []")
    case True
    then show ?thesis by simp
  next
    case False
    then have "Max (insert (l + 1) (set ns)) = max (l + 1) (Max (set ns))"
      by (intro Max_insert) auto
    with False l show ?thesis by simp
  qed
  with k show ?thesis by (simp add: compute_last_index_eq)
qed

lemma compute_last_index_new_entries:
  "compute_last_index sc = Inr l \<Longrightarrow>
   compute_last_index (sc @ new_entries uu l gs) = Inr (l + int (length gs))"
proof (induction gs arbitrary: sc l)
  case Nil
  then show ?case by simp
next
  case (Cons g gs)
  from compute_last_index_snoc [OF Cons.prems]
  have "compute_last_index (sc @ [(py_str (l + 1), VDict (to_shortcut g uu))]) = Inr (l + 1)" .
  from Cons.IH [OF this] show ?case by (simp add: algebra_simps)
qed

section \<open>Lemmas: the loop over the selected games\<close>

lemma fold_print_line_fields [simp]:
  "files (fold print_line ls w) = files w"
  "denied (fold print_line ls w) = denied w"
  "clock (fold print_line ls w) = clock w"
  "stdin (fold print_line ls w) = stdin w"
  "art_cache (fold print_line ls w) = art_cache w"
  "stdout (fold print_line ls w) = stdout w @ map Line ls"
  by (induction ls arbitrary: w) auto

lemma merge_games_result:
  assumes "\<forall>k\<in>fst ` set sc. k \<noteq> []"
    and "shortcuts_dict st = D @ N"
    and "fst ` set sc \<subseteq> fst ` set D"
    and "\<forall>k\<in>fst ` set (D @ N). \<exists>n. py_int k = Some n \<and> n \<le> last_index st"
  shows "shortcuts_dict (fst (merge_games uu re (key_of_target sc) games st w)) =
           (if re then replace_entries uu sc (filter (game_hit uu sc) games) D else D) @ N @
           new_entries uu (last_index st) (filter (\<lambda>g. \<not> game_hit uu sc g) games) \<and>
         last_index (fst (merge_games uu re (key_of_target sc) games st w)) =
           last_index st + int (length (filter (\<lambda>g. \<not> game_hit uu sc g) games)) \<and>
         added (fst (merge_games uu re (key_of_target sc) games st w)) =
           added st + (if re then length games
                       else length (filter (\<lambda>g. \<not> game_hit uu sc g) games)) \<and>
         game_results (fst (merge_games uu re (key_of_target sc) games st w)) =
           game_results st @
           (if re then [] else map skip_message (filter (game_hit uu sc) games)) \<and>
         snd (merge_games uu re (key_of_target sc) games st w) =
           (if re then w
            else fold print_line (map skip_message (filter (game_hit uu sc) games)) w)"
  using assms
proof (induction games arbitrary: st w D N)
  case Nil
  then show ?case by simp
next
  case (Cons g games)
  let ?t = "VStr (shortcut_target g uu)"
  let ?v = "VDict (to_shortcut g uu)"
  show ?case
  proof (cases "game_hit uu sc g")
    case True
    then obtain i where i: "key_of_target sc ?t = Some i"
      using key_of_target_None [of sc ?t] by (auto simp: game_hit_def)
    then have isc: "i \<in> fst ` set sc" by (rule key_of_target_in_keys)
    with Cons.prems have ine: "i \<noteq> []" and iD: "i \<in> fst ` set D" by auto
    show ?thesis
    proof (cases re)
      case re: True
      let ?st1 = "st\<lparr>shortcuts_dict := dict_set i ?v (shortcuts_dict st), added := added st + 1\<rparr>"
      have step: "merge_games uu re (key_of_target sc) (g # games) st w =
          merge_games uu re (key_of_target sc) games ?st1 w"
        using i ine re by simp
      have d1: "shortcuts_dict ?st1 = dict_set i ?v D @ N"
        using Cons.prems(2) iD by (simp add: dict_set_append)
      have keys: "map fst (dict_set i ?v D) = map fst D" using iD by (rule dict_set_keys)
      then have kset: "fst ` set (dict_set i ?v D) = fst ` set D"
        by (metis list.set_map)
      have sub: "fst ` set sc \<subseteq> fst ` set (dict_set i ?v D)"
        using Cons.prems(3) kset by simp
      have inv: "\<forall>k\<in>fst ` set (dict_set i ?v D @ N). \<exists>n. py_int k = Some n \<and> n \<le> last_index ?st1"
        using Cons.prems(4) kset by (simp add: image_Un)
      from Cons.IH [OF Cons.prems(1) d1 sub inv, of w] True re i ine
      show ?thesis by simp
    next
      case nre: False
      let ?st1 = "st\<lparr>game_results := game_results st @ [skip_message g]\<rparr>"
      have step: "merge_games uu re (key_of_target sc) (g # games) st w =
          merge_games uu re (key_of_target sc) games ?st1 (print_line (skip_message g) w)"
        using i ine nre by simp
      have d1: "shortcuts_dict ?st1 = D @ N" using Cons.prems(2) by simp
      have inv: "\<forall>k\<in>fst ` set (D @ N). \<exists>n. py_int k = Some n \<and> n \<le> last_index ?st1"
        using Cons.prems(4) by simp
      from Cons.IH [OF Cons.prems(1) d1 Cons.prems(3) inv, of "print_line (skip_message g) w"]
        True nre i ine
      show ?thesis by simp
    qed
  next
    case False
    then have i: "key_of_target sc ?t = None"
      using key_of_target_None [of sc ?t] by (simp add: game_hit_def)
    let ?k = "py_str (last_index st + 1)"
    let ?st1 = "st\<lparr>last_index := last_index st + 1,
                   shortcuts_dict := dict_set ?k ?v (shortcuts_dict st),
                   added := added st + 1\<rparr>"
    have step: "merge_games uu re (key_of_target sc) (g # games) st w =
        merge_games uu re (key_of_target sc) games ?st1 w"
      using i by simp
    have fresh: "?k \<notin> fst ` set (D @ N)"
    proof
      assume "?k \<in> fst ` set (D @ N)"
      with Cons.prems(4) obtain n where "py_int ?k = Some n" "n \<le> last_index st" by blast
      then show False by (simp add: py_int_py_str)
    qed
    have d1: "shortcuts_dict ?st1 = D @ (N @ [(?k, ?v)])"
      using Cons.prems(2) fresh by (simp add: dict_set_fresh)
    have inv: "\<forall>k\<in>fst ` set (D @ (N @ [(?k, ?v)])). \<exists>n. py_int k = Some n \<and> n \<le> last_index ?st1"
    proof
      fix k assume "k \<in> fst ` set (D @ (N @ [(?k, ?v)]))"
      then consider "k \<in> fst ` set (D @ N)" | "k = ?k" by auto
      then show "\<exists>n. py_int k = Some n \<and> n \<le> last_index ?st1"
      proof cases
        case 1
        with Cons.prems(4) obtain n where "py_int k = Some n" "n \<le> last_index st" by blast
        then show ?thesis by auto
      next
        case 2
        then show ?thesis by (simp add: py_int_py_str)
      qed
    qed
    from Cons.IH [OF Cons.prems(1) d1 Cons.prems(3) inv, of w] False i
    show ?thesis by (simp add: algebra_simps)
  qed
qed

section \<open>Lemmas: the in-memory part of \<^verbatim>\<open>add_games_to_shortcut_file\<close>\<close>

lemma index_shortcuts_empty:
  assumes "index_shortcuts sdb lib user dau games sc Map.empty 0 w = Inr ((pti, art), w')"
  shows "pti = key_of_target sc"
proof
  fix t
  from index_shortcuts_result [OF assms]
  have "pti t = (case key_of_target sc t of None \<Rightarrow> None | Some k \<Rightarrow> Some k)" by simp
  then show "pti t = key_of_target sc t" by (simp split: option.splits)
qed

lemma merge_games_from_store:
  assumes "compute_last_index sc = Inr l"
  shows "shortcuts_dict (fst (merge_games uu re (key_of_target sc) games
             \<lparr>shortcuts_dict = sc, last_index = l, added = 0, game_results = []\<rparr> w)) =
           (if re then replace_entries uu sc (filter (game_hit uu sc) games) sc else sc) @
           new_entries uu l (filter (\<lambda>g. \<not> game_hit uu sc g) games)"
    and "last_index (fst (merge_games uu re (key_of_target sc) games
             \<lparr>shortcuts_dict = sc, last_index = l, added = 0, game_results = []\<rparr> w)) =
           l + int (length (filter (\<lambda>g. \<not> game_hit uu sc g) games))"
    and "added (fst (merge_games uu re (key_of_target sc) games
             \<lparr>shortcuts_dict = sc, last_index = l, added = 0, game_results = []\<rparr> w)) =
           (if re then length games else length (filter (\<lambda>g. \<not> game_hit uu sc g) games))"
    and "game_results (fst (merge_games uu re (key_of_target sc) games
             \<lparr>shortcuts_dict = sc, last_index = l, added = 0, game_results = []\<rparr> w)) =
           (if re then [] else map skip_message (filter (game_hit uu sc) games))"
    and "snd (merge_games uu re (key_of_target sc) games
             \<lparr>shortcuts_dict = sc, last_index = l, added = 0, game_results = []\<rparr> w) =
           (if re then w
            else fold print_line (map skip_message (filter (game_hit uu sc) games)) w)"
proof -
  let ?st = "\<lparr>shortcuts_dict = sc, last_index = l, added = 0, game_results = []\<rparr>"
  have ne: "\<forall>k\<in>fst ` set sc. k \<noteq> []"
    using compute_last_index_keys(3) [OF assms] py_int_nonempty by blast
  have d: "shortcuts_dict ?st = sc @ []" by simp
  have inv: "\<forall>k\<in>fst ` set (sc @ []). \<exists>n. py_int k = Some n \<and> n \<le> last_index ?st"
    using compute_last_index_keys(3) [OF assms] by simp
  note r = merge_games_result [OF ne d subset_refl inv, of uu re games w]
  from r show "shortcuts_dict (fst (merge_games uu re (key_of_target sc) games ?st w)) =
           (if re then replace_entries uu sc (filter (game_hit uu sc) games) sc else sc) @
           new_entries uu l (filter (\<lambda>g. \<not> game_hit uu sc g) games)" by simp
  from r show "last_index (fst (merge_games uu re (key_of_target sc) games ?st w)) =
           l + int (length (filter (\<lambda>g. \<not> game_hit uu sc g) games))" by simp
  from r show "added (fst (merge_games uu re (key_of_target sc) games ?st w)) =
           (if re then length games else length (filter (\<lambda>g. \<not> game_hit uu sc g) games))" by simp
  from r show "game_results (fst (merge_games uu re (key_of_target sc) games ?st w)) =
           (if re then [] else map skip_message (filter (game_hit uu sc) games))" by simp
  from r show "snd (merge_games uu re (key_of_target sc) games ?st w) =
           (if re then w
            else fold print_line (map skip_message (filter (game_hit uu sc) games)) w)" by simp
qed

lemma load_and_merge_result:
  assumes "load_and_merge sdb lib user games uu re dau path w1 = Inr ((shortcuts', st), w6)"
  shows "\<exists>content shortcuts sc l art.
      files w1 path = Some content \<and> binary_load lib content = Inr shortcuts \<and>
      map_of shortcuts ''shortcuts'' = Some (VDict sc) \<and>
      index_ok dau sc \<and> compute_last_index sc = Inr l \<and>
      shortcuts_dict st =
        (if re then replace_entries uu sc (filter (game_hit uu sc) games) sc else sc) @
        new_entries uu l (filter (\<lambda>g. \<not> game_hit uu sc g) games) \<and>
      last_index st = l + int (length (filter (\<lambda>g. \<not> game_hit uu sc g) games)) \<and>
      added st = (if re then length games
                  else length (filter (\<lambda>g. \<not> game_hit uu sc g) games)) \<and>
      game_results st = (if re then [] else map skip_message (filter (game_hit uu sc) games)) \<and>
      shortcuts' = dict_set ''shortcuts'' (VDict (shortcuts_dict st)) shortcuts \<and>
      files w6 = files w1 \<and> denied w6 = denied w1 \<and> clock w6 = clock w1 \<and>
      stdin w6 = stdin w1 \<and>
      stdout w6 = stdout w1 @
        (if dau then [Line ''Downloading art for existing shortcuts...''] else []) @
        entry_warnings sc @
        (if dau then [Line (''Downloaded new art for '' @ py_str (int art) @ '' games.''), Line []]
         else []) @
        (if re then [] else map Line (map skip_message (filter (game_hit uu sc) games))) @
        [Line (''Added '' @ py_str (int (added st)) @ '' new games'')]"
proof -
  let ?w2 = "if dau then print_line ''Downloading art for existing shortcuts...'' w1 else w1"
  from assms obtain content where c: "files w1 path = Some content"
    by (auto simp: load_and_merge_def split: option.splits)
  from assms c obtain shortcuts where s: "binary_load lib content = Inr shortcuts"
    by (auto simp: load_and_merge_def split: sum.splits)
  from assms c s obtain sc where sc: "map_of shortcuts ''shortcuts'' = Some (VDict sc)"
    by (auto simp: load_and_merge_def Let_def split: option.splits vdf_value.splits)
  from assms c s sc obtain pti art w3 where
    ix: "index_shortcuts sdb lib user dau games sc Map.empty 0 ?w2 = Inr ((pti, art), w3)"
    by (auto simp: load_and_merge_def Let_def split: sum.splits prod.splits)
  let ?w4 = "if dau then print_line []
                 (print_line (''Downloaded new art for '' @ py_str (int art) @ '' games.'') w3)
             else w3"
  from assms c s sc ix obtain l where l: "compute_last_index sc = Inr l"
    by (auto simp: load_and_merge_def Let_def split: sum.splits prod.splits)
  have pti: "pti = key_of_target sc" using ix by (rule index_shortcuts_empty)
  let ?m = "merge_games uu re (key_of_target sc) games
              \<lparr>shortcuts_dict = sc, last_index = l, added = 0, game_results = []\<rparr> ?w4"
  from assms c s sc ix l pti have st: "st = fst ?m"
    and sh: "shortcuts' = dict_set ''shortcuts'' (VDict (shortcuts_dict (fst ?m))) shortcuts"
    and w6: "w6 = print_line (''Added '' @ py_str (int (added (fst ?m))) @ '' new games'') (snd ?m)"
    by (auto simp: load_and_merge_def Let_def split: sum.splits prod.splits)
  note ixr = index_shortcuts_result [OF ix]
  note m = merge_games_from_store [OF l, of uu re games ?w4]
  have "index_ok dau sc" using ixr by simp
  moreover have "shortcuts_dict st =
        (if re then replace_entries uu sc (filter (game_hit uu sc) games) sc else sc) @
        new_entries uu l (filter (\<lambda>g. \<not> game_hit uu sc g) games)"
    using m(1) st by simp
  moreover have "last_index st = l + int (length (filter (\<lambda>g. \<not> game_hit uu sc g) games))"
    using m(2) st by simp
  moreover have "added st = (if re then length games
                  else length (filter (\<lambda>g. \<not> game_hit uu sc g) games))"
    using m(3) st by simp
  moreover have "game_results st =
      (if re then [] else map skip_message (filter (game_hit uu sc) games))"
    using m(4) st by simp
  moreover have "shortcuts' = dict_set ''shortcuts'' (VDict (shortcuts_dict st)) shortcuts"
    using sh st by simp
  moreover have "files w6 = files w1 \<and> denied w6 = denied w1 \<and> clock w6 = clock w1 \<and>
      stdin w6 = stdin w1"
    using ixr by (simp add: w6 m(5))
  moreover have "stdout w6 = stdout w1 @
        (if dau then [Line ''Downloading art for existing shortcuts...''] else []) @
        entry_warnings sc @
        (if dau then [Line (''Downloaded new art for '' @ py_str (int art) @ '' games.''), Line []]
         else []) @
        (if re then [] else map Line (map skip_message (filter (game_hit uu sc) games))) @
        [Line (''Added '' @ py_str (int (added st)) @ '' new games'')]"
    using ixr by (simp add: w6 m(5) st)
  ultimately show ?thesis using c s sc l by blast
qed

lemma load_and_merge_runs:
  assumes "files w1 path = Some content" "binary_load lib content = Inr shortcuts"
    "map_of shortcuts ''shortcuts'' = Some (VDict sc)" "index_ok dau sc"
    "compute_last_index sc = Inr l"
  shows "\<exists>r w6. load_and_merge sdb lib user games uu re dau path w1 = Inr (r, w6)"
proof -
  let ?w2 = "if dau then print_line ''Downloading art for existing shortcuts...'' w1 else w1"
  from index_shortcuts_runs [OF assms(4), of sdb lib user games Map.empty 0 ?w2]
  obtain pti art w3 where
    ix: "index_shortcuts sdb lib user dau games sc Map.empty 0 ?w2 = Inr ((pti, art), w3)"
    by auto
  show ?thesis
    using assms ix by (auto simp: load_and_merge_def Let_def split: prod.splits)
qed

section \<open>Lemmas: \<^verbatim>\<open>add_games_to_shortcut_file\<close>\<close>

lemma files_print_notice [simp]: "files (print_notice uu w) = files w"
  and denied_print_notice [simp]: "denied (print_notice uu w) = denied w"
  and clock_print_notice [simp]: "clock (print_notice uu w) = clock w"
  and stdin_print_notice [simp]: "stdin (print_notice uu w) = stdin w"
  by (simp_all add: print_notice_def)

lemma stdout_print_notice: "\<exists>ls. stdout (print_notice uu w) = stdout w @ ls"
  by (simp add: print_notice_def)

lemma commit_shortcuts_result:
  assumes "commit_shortcuts lib path sb shortcuts w = Inr (u, w')"
  shows "\<exists>b ls. binary_dumps lib shortcuts = Inr b \<and> files w' path = Some b \<and>
           stdout w' = stdout w @ ls"
proof -
  let ?bak = "path @ ''-'' @ clock w @ ''.bak''"
  let ?first = "if sb then os_remove path
                  (print_line ''Not backing up `shortcuts.vdf` since you enjoy danger'' w)
                else os_rename path ?bak
                  (print_line (''Backing up `shortcuts.vdf` to `'' @ ?bak @ ''`'') w)"
  from assms obtain w1 where f: "?first = Inr ((), w1)"
    by (auto simp: commit_shortcuts_def Let_def split: sum.splits if_splits)
  then have o1: "\<exists>ls. stdout w1 = stdout w @ ls"
    by (auto simp: os_remove_def os_rename_def split: if_splits option.splits)
  from assms f obtain b where b: "binary_dumps lib shortcuts = Inr b"
    by (auto simp: commit_shortcuts_def Let_def split: sum.splits if_splits)
  from assms f b obtain w2 where w2: "write_wb path b w1 = Inr ((), w2)"
    and w': "w' = print_line (arrow_sign @ ''   Restart Steam!'')
                   (print_line [] (print_line ''Updated `shortcuts.vdf` successfully!'' w2))"
    by (auto simp: commit_shortcuts_def Let_def split: sum.splits if_splits)
  from w2 have "files w2 path = Some b" "stdout w2 = stdout w1"
    by (auto simp: write_wb_def split: if_splits)
  with o1 w' b show ?thesis by auto
qed

lemma add_games_result:
  assumes "add_games_to_shortcut_file sdb lib user games sb uu re dau w = Inr (r, w')"
  shows "(files w (shortcut_file_path_of sdb lib user) = None \<and>
          r = (None, Some (not_found_message (shortcut_file_path_of sdb lib user))) \<and>
          files w' = files w) \<or>
         (\<exists>content shortcuts sc l.
            files w (shortcut_file_path_of sdb lib user) = Some content \<and>
            binary_load lib content = Inr shortcuts \<and>
            map_of shortcuts ''shortcuts'' = Some (VDict sc) \<and>
            index_ok dau sc \<and> compute_last_index sc = Inr l \<and>
            (\<exists>pre mid post. stdout w' = stdout w @ pre @ entry_warnings sc @ mid @
                map Line (skip_results uu re sc games) @ post) \<and>
            (if added_count uu re sc games = 0
             then r = (None, Some nothing_new_message) \<and> files w' = files w
             else r = (Some (skip_results uu re sc games, added_count uu re sc games), None) \<and>
                  (\<exists>b. binary_dumps lib
                          (dict_set ''shortcuts'' (VDict (merged_dict uu re sc l games)) shortcuts) =
                        Inr b \<and>
                       files w' (shortcut_file_path_of sdb lib user) = Some b)))"
proof (cases "files w (shortcut_file_path_of sdb lib user)")
  case None
  with assms show ?thesis
    by (auto simp: add_games_to_shortcut_file_def Let_def os_path_exists_def)
next
  case (Some content0)
  let ?path = "shortcut_file_path_of sdb lib user"
  let ?w1 = "print_notice uu w"
  from Some assms obtain shortcuts' st w6 where
    lm: "load_and_merge sdb lib user games uu re dau ?path ?w1 = Inr ((shortcuts', st), w6)"
    by (auto simp: add_games_to_shortcut_file_def Let_def os_path_exists_def split: sum.splits)
  from load_and_merge_result [OF lm] obtain content shortcuts sc l art where
    c: "files ?w1 ?path = Some content" "binary_load lib content = Inr shortcuts"
       "map_of shortcuts ''shortcuts'' = Some (VDict sc)" "index_ok dau sc"
       "compute_last_index sc = Inr l"
    and sd: "shortcuts_dict st = merged_dict uu re sc l games"
    and ad: "added st = added_count uu re sc games"
    and gr: "game_results st = skip_results uu re sc games"
    and sh: "shortcuts' = dict_set ''shortcuts'' (VDict (shortcuts_dict st)) shortcuts"
    and fw: "files w6 = files ?w1"
    and ow: "stdout w6 = stdout ?w1 @
        (if dau then [Line ''Downloading art for existing shortcuts...''] else []) @
        entry_warnings sc @
        (if dau then [Line (''Downloaded new art for '' @ py_str (int art) @ '' games.''), Line []]
         else []) @
        (if re then [] else map Line (map skip_message (filter (game_hit uu sc) games))) @
        [Line (''Added '' @ py_str (int (added st)) @ '' new games'')]"
    unfolding merged_dict_def added_count_def skip_results_def by blast
  obtain ls0 where ls0: "stdout ?w1 = stdout w @ ls0" using stdout_print_notice by blast
  have sk: "(if re then [] else map Line (map skip_message (filter (game_hit uu sc) games))) =
      map Line (skip_results uu re sc games)"
    by (simp add: skip_results_def)
  have o6: "stdout w6 = stdout w @
      (ls0 @ (if dau then [Line ''Downloading art for existing shortcuts...''] else [])) @
      entry_warnings sc @
      (if dau then [Line (''Downloaded new art for '' @ py_str (int art) @ '' games.''), Line []]
         else []) @
      map Line (skip_results uu re sc games) @
      [Line (''Added '' @ py_str (int (added st)) @ '' new games'')]"
    using ow ls0 sk by simp
  show ?thesis
  proof (cases "added st = 0")
    case True
    with assms Some lm have r: "r = (None, Some nothing_new_message)"
      and w': "w' = print_line nothing_new_message w6"
      by (auto simp: add_games_to_shortcut_file_def Let_def os_path_exists_def)
    have "stdout w' = stdout w @
      (ls0 @ (if dau then [Line ''Downloading art for existing shortcuts...''] else [])) @
      entry_warnings sc @
      (if dau then [Line (''Downloaded new art for '' @ py_str (int art) @ '' games.''), Line []]
         else []) @
      map Line (skip_results uu re sc games) @
      ([Line (''Added '' @ py_str (int (added st)) @ '' new games'')] @
       [Line nothing_new_message])"
      using o6 w' by simp
    then have "\<exists>pre mid post. stdout w' = stdout w @ pre @ entry_warnings sc @ mid @
                map Line (skip_results uu re sc games) @ post" by blast
    with True r w' fw c ad show ?thesis by auto
  next
    case False
    with assms Some lm obtain u where
      cm: "commit_shortcuts lib ?path sb shortcuts' w6 = Inr (u, w')"
      and r: "r = (Some (game_results st, added st), None)"
      by (auto simp: add_games_to_shortcut_file_def Let_def os_path_exists_def split: sum.splits)
    from commit_shortcuts_result [OF cm] obtain b ls where
      b: "binary_dumps lib shortcuts' = Inr b" "files w' ?path = Some b"
      and ls: "stdout w' = stdout w6 @ ls" by blast
    have "stdout w' = stdout w @
      (ls0 @ (if dau then [Line ''Downloading art for existing shortcuts...''] else [])) @
      entry_warnings sc @
      (if dau then [Line (''Downloaded new art for '' @ py_str (int art) @ '' games.''), Line []]
         else []) @
      map Line (skip_results uu re sc games) @
      ([Line (''Added '' @ py_str (int (added st)) @ '' new games'')] @ ls)"
      using o6 ls by simp
    then have "\<exists>pre mid post. stdout w' = stdout w @ pre @ entry_warnings sc @ mid @
                map Line (skip_results uu re sc games) @ post" by blast
    with False r b c ad gr sd sh show ?thesis by auto
  qed
qed

lemma add_games_no_op:
  assumes "files v (shortcut_file_path_of sdb lib user) = Some content"
    "binary_load lib content = Inr shortcuts"
    "map_of shortcuts ''shortcuts'' = Some (VDict sc)" "index_ok dau sc"
    "compute_last_index sc = Inr l" "added_count uu re sc games = 0"
  shows "\<exists>v'. add_games_to_shortcut_file sdb lib user games sb uu re dau v =
           Inr ((None, Some nothing_new_message), v') \<and> files v' = files v"
proof -
  let ?path = "shortcut_file_path_of sdb lib user"
  let ?w1 = "print_notice uu v"
  have f: "files ?w1 ?path = Some content" using assms(1) by simp
  from load_and_merge_runs [OF f assms(2-5), of sdb user games uu re]
  obtain shortcuts' st w6 where
    lm: "load_and_merge sdb lib user games uu re dau ?path ?w1 = Inr ((shortcuts', st), w6)"
    by auto
  from load_and_merge_result [OF lm] assms(2,3) f have
    "added st = added_count uu re sc games" and fw: "files w6 = files ?w1"
    unfolding added_count_def by auto
  with assms(6) have z: "added st = 0" by simp
  have "add_games_to_shortcut_file sdb lib user games sb uu re dau v =
      Inr ((None, Some nothing_new_message), print_line nothing_new_message w6)"
    using lm z f by (simp add: add_games_to_shortcut_file_def Let_def os_path_exists_def)
  with fw show ?thesis by simp
qed

section \<open>Lemmas: the store before and after a run\<close>

lemma outcome_Inr: "outcome x = Inr r \<Longrightarrow> x = Inr (r, world_after x)"
  by (cases x) (auto simp: outcome_def world_after_def)

lemma outcome_Inr_iff: "outcome x = Inr r \<longleftrightarrow> (\<exists>w. x = Inr (r, w))"
  by (cases x) (auto simp: outcome_def)

lemma world_after_Inr [simp]: "world_after (Inr (r, w)) = w"
  by (simp add: world_after_def)

lemma outcome_simps [simp]: "outcome (Inr (r, w)) = Inr r" "outcome (Inl (e, w)) = Inl e"
  by (simp_all add: outcome_def)

lemma stored_shortcuts_Some:
  "stored_shortcuts lib w p = Some sc \<longleftrightarrow>
   (\<exists>content shortcuts. files w p = Some content \<and> binary_load lib content = Inr shortcuts \<and>
      map_of shortcuts ''shortcuts'' = Some (VDict sc))"
  by (auto simp: stored_shortcuts_def split: option.splits sum.splits vdf_value.splits)

lemma stored_shortcuts_written:
  assumes "codec_ok lib"
    "binary_dumps lib (dict_set ''shortcuts'' (VDict sc') shortcuts) = Inr b"
    "files w p = Some b"
  shows "stored_shortcuts lib w p = Some sc'"
proof -
  from assms(1,2) have "binary_load lib b = Inr (dict_set ''shortcuts'' (VDict sc') shortcuts)"
    by (simp add: codec_ok_def)
  with assms(3) show ?thesis by (simp add: stored_shortcuts_def map_of_dict_set)
qed

lemma stored_shortcuts_files:
  "files w' = files w \<Longrightarrow> stored_shortcuts lib w' p = stored_shortcuts lib w p"
  by (simp add: stored_shortcuts_def)

lemma add_games_store:
  assumes run: "add_games_to_shortcut_file sdb lib user games sb uu re dau w = Inr (r, w')"
    and codec: "codec_ok lib"
    and sc: "stored_shortcuts lib w (shortcut_file_path_of sdb lib user) = Some sc"
  shows "\<exists>l. index_ok dau sc \<and> compute_last_index sc = Inr l \<and>
           (\<exists>pre mid post. stdout w' = stdout w @ pre @ entry_warnings sc @ mid @
                map Line (skip_results uu re sc games) @ post) \<and>
           (if added_count uu re sc games = 0
            then r = (None, Some nothing_new_message) \<and> files w' = files w
            else r = (Some (skip_results uu re sc games, added_count uu re sc games), None) \<and>
                 stored_shortcuts lib w' (shortcut_file_path_of sdb lib user) =
                   Some (merged_dict uu re sc l games))"
proof -
  let ?path = "shortcut_file_path_of sdb lib user"
  from sc obtain content shortcuts where c: "files w ?path = Some content"
    "binary_load lib content = Inr shortcuts" "map_of shortcuts ''shortcuts'' = Some (VDict sc)"
    by (auto simp: stored_shortcuts_Some)
  from add_games_result [OF run] c obtain l where
    l: "index_ok dau sc" "compute_last_index sc = Inr l"
    and o: "\<exists>pre mid post. stdout w' = stdout w @ pre @ entry_warnings sc @ mid @
                map Line (skip_results uu re sc games) @ post"
    and r: "if added_count uu re sc games = 0
             then r = (None, Some nothing_new_message) \<and> files w' = files w
             else r = (Some (skip_results uu re sc games, added_count uu re sc games), None) \<and>
                  (\<exists>b. binary_dumps lib
                          (dict_set ''shortcuts'' (VDict (merged_dict uu re sc l games)) shortcuts) =
                        Inr b \<and> files w' ?path = Some b)"
    by auto
  show ?thesis
  proof (cases "added_count uu re sc games = 0")
    case True
    with l o r show ?thesis by auto
  next
    case False
    with r obtain b where
      b: "binary_dumps lib (dict_set ''shortcuts'' (VDict (merged_dict uu re sc l games)) shortcuts) =
            Inr b" "files w' ?path = Some b"
      and r': "r = (Some (skip_results uu re sc games, added_count uu re sc games), None)" by auto
    from stored_shortcuts_written [OF codec b]
    have "stored_shortcuts lib w' ?path = Some (merged_dict uu re sc l games)" .
    with False l o r' show ?thesis by auto
  qed
qed

lemmas demo_defs =
  demo_lib_def demo_user_def demo_db_def demo_path_def demo_game_def demo_world_def
  demo_store_def demo_entry_def demo_args_def

lemmas run_defs =
  add_games_to_shortcut_file_def load_and_merge_def commit_shortcuts_def
  shortcut_file_path_of_def print_notice_def print_line_def print_value_def os_path_exists_def
  os_remove_def os_rename_def write_wb_def entry_exe_def py_not_def compute_last_index_def
  py_int_def strip_def is_space_def is_digit_def digit_val_def shortcut_target_def
  to_shortcut_def py_str_def digit_char_def str_nat.simps skip_message_def
  outcome_def world_after_def stored_shortcuts_def entry_target_def

section \<open>The claims\<close>

text \<open>
  C4 (no write on a no-op).  Whenever the loops of \<^verbatim>\<open>add_games_to_shortcut_file\<close> end
  with \<^verbatim>\<open>added == 0\<close>, the function returns \<^verbatim>\<open>(None, "No need to update ...")\<close> and
  the files are those it started with: no backup file has appeared, the store file has
  been neither removed nor renamed, and nothing has been written to its path.
\<close>

theorem no_write_on_no_op:
  assumes "outcome (load_and_merge sdb lib user games uu re dau
                      (shortcut_file_path_of sdb lib user) (print_notice uu w)) =
             Inr (shortcuts, st)"
    and "added st = 0"
  shows "outcome (add_games_to_shortcut_file sdb lib user games sb uu re dau w) =
           Inr (None, Some nothing_new_message) \<and>
         files (world_after (add_games_to_shortcut_file sdb lib user games sb uu re dau w)) =
           files w"
proof -
  let ?path = "shortcut_file_path_of sdb lib user"
  let ?lm = "load_and_merge sdb lib user games uu re dau ?path (print_notice uu w)"
  from assms(1) obtain w6 where lm: "?lm = Inr ((shortcuts, st), w6)"
    by (auto simp: outcome_Inr_iff)
  from load_and_merge_result [OF lm] have
    ex: "files (print_notice uu w) ?path \<noteq> None" and fw: "files w6 = files w"
    by auto
  have "add_games_to_shortcut_file sdb lib user games sb uu re dau w =
      Inr ((None, Some nothing_new_message), print_line nothing_new_message w6)"
    using ex assms(2) lm
    by (auto simp: add_games_to_shortcut_file_def Let_def os_path_exists_def)
  with fw show ?thesis by simp
qed

theorem no_write_on_no_op_witness:
  "outcome (load_and_merge demo_db demo_lib demo_user [demo_game ''/g/a.exe'' ''A''] False False
              False (shortcut_file_path_of demo_db demo_lib demo_user)
              (print_notice False
                 (demo_world [demo_path \<mapsto> demo_store [(''5'', demo_entry ''/g/a.exe'')]] []))) =
     Inr (demo_store [(''5'', demo_entry ''/g/a.exe'')],
          \<lparr>shortcuts_dict = [(''5'', demo_entry ''/g/a.exe'')], last_index = 5, added = 0,
           game_results = [''A: Not creating shortcut since it already has one'']\<rparr>) \<and>
   outcome (add_games_to_shortcut_file demo_db demo_lib demo_user [demo_game ''/g/a.exe'' ''A'']
              False False False False
              (demo_world [demo_path \<mapsto> demo_store [(''5'', demo_entry ''/g/a.exe'')]] [])) =
     Inr (None, Some nothing_new_message) \<and>
   files (world_after (add_games_to_shortcut_file demo_db demo_lib demo_user
              [demo_game ''/g/a.exe'' ''A''] False False False False
              (demo_world [demo_path \<mapsto> demo_store [(''5'', demo_entry ''/g/a.exe'')]] []))) =
     files (demo_world [demo_path \<mapsto> demo_store [(''5'', demo_entry ''/g/a.exe'')]] [])"
proof -
  have h: "outcome (load_and_merge demo_db demo_lib demo_user [demo_game ''/g/a.exe'' ''A''] False False
              False (shortcut_file_path_of demo_db demo_lib demo_user)
              (print_notice False
                 (demo_world [demo_path \<mapsto> demo_store [(''5'', demo_entry ''/g/a.exe'')]] []))) =
     Inr (demo_store [(''5'', demo_entry ''/g/a.exe'')],
          \<lparr>shortcuts_dict = [(''5'', demo_entry ''/g/a.exe'')], last_index = 5, added = 0,
           game_results = [''A: Not creating shortcut since it already has one'']\<rparr>)"
    by (simp add: demo_defs run_defs)
  from no_write_on_no_op [OF h, of False] h show ?thesis by simp
qed

lemmas select_defs =
  filter_games_def prompt_for_steam_account_def py_input_def list_get_def rjust_def ljust_def
  account_row_def game_row_def print_games_def

text \<open>
  C3 (one entry per launch target in default mode).  The code does not keep it: two
  selected records with the same target that is not in the store are both appended.
  Here the store holds \<^verbatim>\<open>/g/a.exe\<close> under key 5 and the record of \<^verbatim>\<open>/g/b.exe\<close> is
  selected twice (as the selection \<^verbatim>\<open>1,1\<close> does); the written store has the keys 5, 6
  and 7, and the entries under 6 and 7 have the same launch target.
\<close>

theorem duplicate_targets_both_inserted:
  "map_option (map (\<lambda>kv. (fst kv, entry_target (snd kv))))
     (stored_shortcuts demo_lib
        (world_after
           (add_games_to_shortcut_file demo_db demo_lib demo_user
              [demo_game ''/g/b.exe'' ''B'', demo_game ''/g/b.exe'' ''B''] False False False False
              (demo_world [demo_path \<mapsto> demo_store [(''5'', demo_entry ''/g/a.exe'')]] [])))
        demo_path) =
   Some [(''5'', Some (VStr ''/g/a.exe'')), (''6'', Some (VStr ''/g/b.exe'')),
         (''7'', Some (VStr ''/g/b.exe''))]"
  by (simp add: demo_defs run_defs)

text \<open>
  C8 (selection errors are never fatal).  The code does not keep it.  In a table of two
  games the input 3 leaves \<^verbatim>\<open>filter_games\<close> with an \<^verbatim>\<open>IndexError\<close>, the input 0
  selects the last game and the input -1 the first; in a table of two accounts the input
  0 selects the last account and the input -5 leaves \<^verbatim>\<open>prompt_for_steam_account\<close> with
  an \<^verbatim>\<open>IndexError\<close>.
\<close>

theorem selection_out_of_range:
  "outcome (filter_games [demo_game ''/g/a.exe'' ''A'', demo_game ''/g/b.exe'' ''B'']
              (demo_world Map.empty [''3''])) = Inl IndexError \<and>
   outcome (filter_games [demo_game ''/g/a.exe'' ''A'', demo_game ''/g/b.exe'' ''B'']
              (demo_world Map.empty [''0''])) = Inr (Some [demo_game ''/g/b.exe'' ''B'']) \<and>
   outcome (filter_games [demo_game ''/g/a.exe'' ''A'', demo_game ''/g/b.exe'' ''B'']
              (demo_world Map.empty [''-1''])) = Inr (Some [demo_game ''/g/a.exe'' ''A'']) \<and>
   outcome (prompt_for_steam_account
              [\<lparr>steamid = ''11'', username = ''ann''\<rparr>, \<lparr>steamid = ''22'', username = ''bob''\<rparr>]
              (demo_world Map.empty [''0''])) = Inr (Some ''22'') \<and>
   outcome (prompt_for_steam_account
              [\<lparr>steamid = ''11'', username = ''ann''\<rparr>, \<lparr>steamid = ''22'', username = ''bob''\<rparr>]
              (demo_world Map.empty [''-5''])) = Inl IndexError"
  by (simp add: demo_defs run_defs select_defs)

text \<open>
  C9 (single account).  The code does not keep it: with one account \<^verbatim>\<open>bob\<close> of id 7
  and the command line value 999, lines 507 to 534 end in \<^verbatim>\<open>StopIteration\<close>.
\<close>

theorem single_account_wrong_id:
  "map_option outcome (resolve_account ''999'' [demo_user] (demo_world Map.empty [])) =
     Some (Inl StopIteration)"
  by (simp add: demo_defs run_defs select_defs resolve_account_def isdigit_def)

text \<open>
  C5 (fatal errors reach the exit status).  The code does not keep it for a missing
  store file: \<^verbatim>\<open>main\<close> drops the value of \<^verbatim>\<open>add_games_to_shortcut_file\<close>, prints
  \<^verbatim>\<open>Done.\<close> and returns 0, and the process ends with status 0.
\<close>

theorem missing_store_exit_status:
  "map_option outcome
     (main demo_args [demo_game ''/g/a.exe'' ''A''] demo_db demo_lib (demo_world Map.empty [])) =
     Some (Inr 0) \<and>
   map_option exit_status
     (main demo_args [demo_game ''/g/a.exe'' ''A''] demo_db demo_lib (demo_world Map.empty [])) =
     Some 0 \<and>
   files (demo_world Map.empty []) (shortcut_file_path_of demo_db demo_lib demo_user) = None"
  by (simp add: demo_defs run_defs select_defs main_def resolve_account_def isdigit_def
      parse_arguments_def pick_account.simps download_selected_art_def exit_status_def
      not_found_message_def)

lemma new_entries_explicit:
  "new_entries uu l gs =
     map (\<lambda>j. (py_str (l + 1 + int j), VDict (to_shortcut (gs ! j) uu))) [0..<length gs]"
proof (induction gs arbitrary: l)
  case Nil
  then show ?case by simp
next
  case (Cons g gs)
  have "[0..<length (g # gs)] = 0 # map Suc [0..<length gs]"
    by (simp add: upt_conv_Cons map_Suc_upt del: upt_Suc)
  then show ?case by (simp add: Cons.IH comp_def algebra_simps)
qed

lemma new_entries_keys:
  "map fst (new_entries uu l gs) = map (\<lambda>j. py_str (l + 1 + int j)) [0..<length gs]"
  by (simp add: new_entries_explicit comp_def)

lemma replace_entries_keys:
  "fst ` set sc \<subseteq> fst ` set d \<Longrightarrow> map fst (replace_entries uu sc gs d) = map fst d"
proof (induction gs arbitrary: d)
  case Nil
  then show ?case by simp
next
  case (Cons g gs)
  show ?case
  proof (cases "key_of_target sc (VStr (shortcut_target g uu))")
    case None
    with Cons show ?thesis by simp
  next
    case (Some k)
    then have "k \<in> fst ` set d" using key_of_target_in_keys Cons.prems by blast
    then have keys: "map fst (dict_set k (VDict (to_shortcut g uu)) d) = map fst d"
      by (rule dict_set_keys)
    then have "fst ` set (dict_set k (VDict (to_shortcut g uu)) d) = fst ` set d"
      by (metis list.set_map)
    with Cons.prems have "fst ` set sc \<subseteq> fst ` set (dict_set k (VDict (to_shortcut g uu)) d)"
      by simp
    from Cons.IH [OF this] keys Some show ?thesis by simp
  qed
qed

lemma merged_dict_keys:
  "map fst (merged_dict uu re sc l games) =
     map fst sc @
     map (\<lambda>j. py_str (l + 1 + int j)) [0..<length (filter (\<lambda>g. \<not> game_hit uu sc g) games)]"
  by (simp add: merged_dict_def new_entries_keys replace_entries_keys)

lemma added_count_positive_inserted:
  "added_count uu False sc games = length (filter (\<lambda>g. \<not> game_hit uu sc g) games)"
  by (simp add: added_count_def)

text \<open>
  C6 (next index and monotonicity).  When a run has written the store, the last index
  \<open>l\<close> that the code computes is 0 for an empty store and otherwise the greatest
  \<^verbatim>\<open>int(key)\<close> over the keys of the store; the written store has the old keys in their
  order, followed by \<^verbatim>\<open>str(l + 1)\<close>, \<^verbatim>\<open>str(l + 2)\<close>, ... for the inserted games.  Each
  new key reads back as its number, which is greater than every old numeric index and
  than every index inserted before it.
\<close>

theorem next_index_monotone:
  assumes "outcome (add_games_to_shortcut_file sdb lib user games sb uu re dau w) =
             Inr (Some res, msg)"
    and "codec_ok lib"
    and "stored_shortcuts lib w (shortcut_file_path_of sdb lib user) = Some sc"
  shows "\<exists>l m. compute_last_index sc = Inr l \<and>
           (sc = [] \<longrightarrow> l = 0) \<and>
           (sc \<noteq> [] \<longrightarrow> (\<exists>k\<in>fst ` set sc. py_int k = Some l)) \<and>
           (\<forall>k\<in>fst ` set sc. \<exists>i. py_int k = Some i \<and> i \<le> l) \<and>
           m = length (filter (\<lambda>g. \<not> game_hit uu sc g) games) \<and>
           map_option (map fst)
             (stored_shortcuts lib
                (world_after (add_games_to_shortcut_file sdb lib user games sb uu re dau w))
                (shortcut_file_path_of sdb lib user)) =
             Some (map fst sc @ map (\<lambda>j. py_str (l + 1 + int j)) [0..<m]) \<and>
           (\<forall>j<m. py_int (py_str (l + 1 + int j)) = Some (l + 1 + int j) \<and>
                   (\<forall>k\<in>fst ` set sc. \<forall>i. py_int k = Some i \<longrightarrow> i < l + 1 + int j) \<and>
                   (\<forall>j'<j. l + 1 + int j' < l + 1 + int j))"
proof -
  let ?run = "add_games_to_shortcut_file sdb lib user games sb uu re dau w"
  let ?path = "shortcut_file_path_of sdb lib user"
  from assms(1) obtain w' where run: "?run = Inr ((Some res, msg), w')"
    by (auto simp: outcome_Inr_iff)
  from add_games_store [OF run assms(2,3)] obtain l where
    l: "compute_last_index sc = Inr l"
    and st: "stored_shortcuts lib w' ?path = Some (merged_dict uu re sc l games)"
    by (auto split: if_splits)
  note k = compute_last_index_keys [OF l]
  have "\<forall>j. (\<forall>k\<in>fst ` set sc. \<forall>i. py_int k = Some i \<longrightarrow> i < l + 1 + int j)"
  proof (intro allI ballI impI)
    fix j k i assume "k \<in> fst ` set sc" "py_int k = Some i"
    with k(3) have "i \<le> l" by force
    then show "i < l + 1 + int j" by simp
  qed
  with l st k show ?thesis
    by (simp add: run merged_dict_keys py_int_py_str)
qed

theorem next_index_monotone_witness:
  "outcome (add_games_to_shortcut_file demo_db demo_lib demo_user
              [demo_game ''/g/b.exe'' ''B'', demo_game ''/g/c.exe'' ''C''] False False False False
              (demo_world [demo_path \<mapsto> demo_store [(''5'', demo_entry ''/g/a.exe'')]] [])) =
     Inr (Some ([], 2), None) \<and>
   codec_ok demo_lib \<and>
   stored_shortcuts demo_lib
     (demo_world [demo_path \<mapsto> demo_store [(''5'', demo_entry ''/g/a.exe'')]] [])
     (shortcut_file_path_of demo_db demo_lib demo_user) = Some [(''5'', demo_entry ''/g/a.exe'')] \<and>
   map_option (map fst)
     (stored_shortcuts demo_lib
        (world_after (add_games_to_shortcut_file demo_db demo_lib demo_user
              [demo_game ''/g/b.exe'' ''B'', demo_game ''/g/c.exe'' ''C''] False False False False
              (demo_world [demo_path \<mapsto> demo_store [(''5'', demo_entry ''/g/a.exe'')]] [])))
        (shortcut_file_path_of demo_db demo_lib demo_user)) = Some [''5'', ''6'', ''7'']"
proof -
  let ?w = "demo_world [demo_path \<mapsto> demo_store [(''5'', demo_entry ''/g/a.exe'')]] []"
  let ?games = "[demo_game ''/g/b.exe'' ''B'', demo_game ''/g/c.exe'' ''C'']"
  have h1: "outcome (add_games_to_shortcut_file demo_db demo_lib demo_user ?games
              False False False False ?w) = Inr (Some ([], 2), None)"
    by (simp add: demo_defs run_defs)
  have h2: "codec_ok demo_lib" by (simp add: codec_ok_def demo_lib_def)
  have h3: "stored_shortcuts demo_lib ?w (shortcut_file_path_of demo_db demo_lib demo_user) =
      Some [(''5'', demo_entry ''/g/a.exe'')]"
    by (simp add: demo_defs run_defs)
  have l: "compute_last_index [(''5'', demo_entry ''/g/a.exe'')] = Inr 5"
    by (simp add: run_defs)
  have m: "length (filter (\<lambda>g. \<not> game_hit False [(''5'', demo_entry ''/g/a.exe'')] g) ?games) = 2"
    by (simp add: demo_defs run_defs game_hit_def has_target_def)
  from next_index_monotone [OF h1 h2 h3] l m
  have "map_option (map fst)
     (stored_shortcuts demo_lib
        (world_after (add_games_to_shortcut_file demo_db demo_lib demo_user ?games
           False False False False ?w))
        (shortcut_file_path_of demo_db demo_lib demo_user)) =
     Some (map fst [(''5'', demo_entry ''/g/a.exe'')] @ map (\<lambda>j. py_str (5 + 1 + int j)) [0..<2])"
    by auto
  then have "map_option (map fst)
     (stored_shortcuts demo_lib
        (world_after (add_games_to_shortcut_file demo_db demo_lib demo_user ?games
           False False False False ?w))
        (shortcut_file_path_of demo_db demo_lib demo_user)) = Some [''5'', ''6'', ''7'']"
    by (simp add: py_str_def digit_char_def str_nat.simps upt_rec)
  with h1 h2 h3 show ?thesis by simp
qed

section \<open>Lemmas: kept and replaced entries\<close>

lemma key_of_target_distinct:
  assumes "distinct (map fst sc)" "j < length sc" "key_of_target sc t = Some (fst (sc ! j))"
  shows "entry_target (snd (sc ! j)) = Some t"
proof -
  from key_of_target_entry [OF assms(3)] obtain v where
    v: "(fst (sc ! j), v) \<in> set sc" "entry_target v = Some t" by blast
  have "(fst (sc ! j), snd (sc ! j)) \<in> set sc" using assms(2) by simp
  with v(1) assms(1) have "v = snd (sc ! j)" by (meson eq_key_imp_eq_value)
  with v(2) show ?thesis by simp
qed

lemma key_of_target_last:
  "j < length sc \<Longrightarrow> entry_target (snd (sc ! j)) = Some t \<Longrightarrow>
   (\<forall>i. j < i \<and> i < length sc \<longrightarrow> entry_target (snd (sc ! i)) \<noteq> Some t) \<Longrightarrow>
   key_of_target sc t = Some (fst (sc ! j))"
proof (induction sc arbitrary: j)
  case Nil
  then show ?case by simp
next
  case (Cons kv sc)
  show ?case
  proof (cases j)
    case 0
    have "\<not> has_target t sc"
    proof
      assume "has_target t sc"
      then obtain i where "i < length sc" "entry_target (snd (sc ! i)) = Some t"
        by (auto simp: has_target_def list_ex_iff in_set_conv_nth)
      with Cons.prems(3) [rule_format, of "Suc i"] 0 show False by simp
    qed
    then have "key_of_target sc t = None" by (simp add: key_of_target_None)
    with 0 Cons.prems(2) show ?thesis by (simp add: key_of_target_Cons)
  next
    case (Suc j')
    have "\<forall>i. j' < i \<and> i < length sc \<longrightarrow> entry_target (snd (sc ! i)) \<noteq> Some t"
    proof (intro allI impI)
      fix i assume "j' < i \<and> i < length sc"
      with Cons.prems(3) [rule_format, of "Suc i"] Suc
      show "entry_target (snd (sc ! i)) \<noteq> Some t" by simp
    qed
    with Cons.IH [of j'] Cons.prems(1,2) Suc have "key_of_target sc t = Some (fst (sc ! j'))"
      by simp
    with Suc show ?thesis by (simp add: key_of_target_Cons)
  qed
qed

lemma replace_entries_nth:
  "distinct (map fst d) \<Longrightarrow> fst ` set sc \<subseteq> fst ` set d \<Longrightarrow> j < length d \<Longrightarrow>
   replace_entries uu sc gs d ! j =
     (case filter (\<lambda>g. key_of_target sc (VStr (shortcut_target g uu)) = Some (fst (d ! j))) gs of
        [] \<Rightarrow> d ! j
      | h # hs \<Rightarrow> (fst (d ! j), VDict (to_shortcut (last (h # hs)) uu)))"
proof (induction gs arbitrary: d)
  case Nil
  then show ?case by simp
next
  case (Cons g gs)
  show ?case
  proof (cases "key_of_target sc (VStr (shortcut_target g uu))")
    case None
    with Cons show ?thesis by simp
  next
    case (Some k)
    let ?v = "VDict (to_shortcut g uu)"
    let ?d1 = "dict_set k ?v d"
    have kd: "k \<in> fst ` set d" using Some key_of_target_in_keys Cons.prems(2) by blast
    then have keys: "map fst ?d1 = map fst d" by (rule dict_set_keys)
    then have kset: "fst ` set ?d1 = fst ` set d" by (metis list.set_map)
    have len: "length ?d1 = length d" using kd by (rule dict_set_length)
    have d1: "distinct (map fst ?d1)" using keys Cons.prems(1) by simp
    have s1: "fst ` set sc \<subseteq> fst ` set ?d1" using kset Cons.prems(2) by simp
    have j1: "j < length ?d1" using len Cons.prems(3) by simp
    have nth: "?d1 ! j = (if fst (d ! j) = k then (k, ?v) else d ! j)"
      using Cons.prems(1,3) kd by (rule dict_set_nth)
    then have fj: "fst (?d1 ! j) = fst (d ! j)" by simp
    note IH = Cons.IH [OF d1 s1 j1]
    show ?thesis
    proof (cases "fst (d ! j) = k")
      case True
      with IH nth fj Some show ?thesis
        by (simp split: list.splits)
    next
      case False
      then have "Some k \<noteq> Some (fst (d ! j))" by auto
      with IH nth fj Some False show ?thesis by (simp split: list.splits)
    qed
  qed
qed

lemma merged_dict_nth:
  assumes "distinct (map fst sc)" "j < length sc"
  shows "j < length (merged_dict uu re sc l games)"
    and "merged_dict uu re sc l games ! j =
      (if re then
         (case filter (\<lambda>g. key_of_target sc (VStr (shortcut_target g uu)) = Some (fst (sc ! j)))
                 (filter (game_hit uu sc) games) of
            [] \<Rightarrow> sc ! j
          | h # hs \<Rightarrow> (fst (sc ! j), VDict (to_shortcut (last (h # hs)) uu)))
       else sc ! j)"
proof -
  let ?kept = "if re then replace_entries uu sc (filter (game_hit uu sc) games) sc else sc"
  have "map fst ?kept = map fst sc" by (simp add: replace_entries_keys)
  then have len: "length ?kept = length sc" by (metis length_map)
  with assms(2) show "j < length (merged_dict uu re sc l games)"
    by (simp add: merged_dict_def)
  have "merged_dict uu re sc l games ! j = ?kept ! j"
    using len assms(2) by (simp add: merged_dict_def nth_append)
  also have "\<dots> = (if re then
         (case filter (\<lambda>g. key_of_target sc (VStr (shortcut_target g uu)) = Some (fst (sc ! j)))
                 (filter (game_hit uu sc) games) of
            [] \<Rightarrow> sc ! j
          | h # hs \<Rightarrow> (fst (sc ! j), VDict (to_shortcut (last (h # hs)) uu)))
       else sc ! j)"
    using replace_entries_nth [OF assms(1) subset_refl assms(2)] by simp
  finally show "merged_dict uu re sc l games ! j =
      (if re then
         (case filter (\<lambda>g. key_of_target sc (VStr (shortcut_target g uu)) = Some (fst (sc ! j)))
                 (filter (game_hit uu sc) games) of
            [] \<Rightarrow> sc ! j
          | h # hs \<Rightarrow> (fst (sc ! j), VDict (to_shortcut (last (h # hs)) uu)))
       else sc ! j)" .
qed

lemma entry_warnings_append:
  "entry_warnings (a @ b) = entry_warnings a @ entry_warnings b"
  by (simp add: entry_warnings_def)

lemma entry_warnings_nth:
  assumes "j < length sc" "entry_target (snd (sc ! j)) = None"
  shows "\<exists>pre post. entry_warnings sc = pre @ [Line no_exe_warning, Repr (snd (sc ! j))] @ post"
proof -
  have "sc = take j sc @ sc ! j # drop (Suc j) sc" using assms(1) by (rule id_take_nth_drop)
  then have "entry_warnings sc =
      entry_warnings (take j sc) @ entry_warnings (sc ! j # drop (Suc j) sc)"
    by (metis entry_warnings_append)
  with assms(2) have "entry_warnings sc =
      entry_warnings (take j sc) @ [Line no_exe_warning, Repr (snd (sc ! j))] @
      entry_warnings (drop (Suc j) sc)"
    by (simp add: entry_warnings_Cons)
  then show ?thesis by blast
qed

end
